theory Spec2Isabelle
  imports Complex_Main "HOL-Library.Word"
begin

unbundle bit_operations_syntax

section \<open>The type \<open>double\<close>: IEEE 754 binary64\<close>

text \<open>
  Distances, fares and ratings are of type \<^verbatim>\<open>double\<close>. A double is modelled as the
  64 bits it occupies: bit 63 is the sign, bits 62..52 the biased exponent and bits 51..0
  the fraction. A finite double \<open>x\<close> denotes the number
  \<open>(-1) ^ sign * significand x * 2 ^ exponent x\<close>. Arithmetic is the arithmetic of the C++
  abstract machine on the usual targets: every operation is computed exactly and rounded
  once to the nearest double, ties to the even significand. The standard leaves open which
  NaN an operation returns; the model takes the rule of the x86-64 instructions
  \<^verbatim>\<open>mulsd\<close> and \<^verbatim>\<open>addsd\<close> that the source compiles to: an operation with a NaN
  operand returns that operand with its quiet bit set (the first operand, when both are
  NaN), keeping its sign and payload, and an invalid operation on numbers (infinity times
  zero, the sum of opposite infinities) returns the default NaN, negative and quiet.
\<close>

type_synonym double = "64 word"

definition sign_bit :: "double \<Rightarrow> bool" where
  "sign_bit x = bit x 63"

definition biased_exponent :: "double \<Rightarrow> int" where
  "biased_exponent x = uint (take_bit 11 (drop_bit 52 x))"

definition fraction :: "double \<Rightarrow> int" where
  "fraction x = uint (take_bit 52 x)"

definition is_nan :: "double \<Rightarrow> bool" where
  "is_nan x = (biased_exponent x = 2047 \<and> fraction x \<noteq> 0)"

definition is_infinite :: "double \<Rightarrow> bool" where
  "is_infinite x = (biased_exponent x = 2047 \<and> fraction x = 0)"

definition is_finite :: "double \<Rightarrow> bool" where
  "is_finite x = (biased_exponent x < 2047)"

definition significand :: "double \<Rightarrow> int" where
  "significand x = (if biased_exponent x = 0 then fraction x else 2 ^ 52 + fraction x)"

definition exponent :: "double \<Rightarrow> int" where
  "exponent x = max (biased_exponent x) 1 - 1075"

definition is_zero :: "double \<Rightarrow> bool" where
  "is_zero x = (is_finite x \<and> significand x = 0)"

text \<open>The double with sign \<open>s\<close> whose other 63 bits are the number \<open>magnitude\<close>.\<close>

definition make_double :: "bool \<Rightarrow> int \<Rightarrow> double" where
  "make_double s magnitude = (if s then push_bit 63 1 else 0) OR word_of_int magnitude"

definition infinity :: "bool \<Rightarrow> double" where
  "infinity s = make_double s (2047 * 2 ^ 52)"

text \<open>The default NaN, \<^verbatim>\<open>0xFFF8000000000000\<close>, and a NaN with its quiet bit (bit 51) set.\<close>

definition default_nan :: double where
  "default_nan = make_double True (2047 * 2 ^ 52 + 2 ^ 51)"

definition quieted :: "double \<Rightarrow> double" where
  "quieted x = x OR push_bit 51 1"

function bit_length :: "int \<Rightarrow> int" where
  "bit_length n = (if n \<le> 0 then 0 else 1 + bit_length (n div 2))"
  by pat_completeness auto
termination
  by (relation "measure nat") auto

declare bit_length.simps [simp del]

text \<open>The fraction \<open>n / d\<close> rounded to the nearest integer, a tie to the even one.\<close>

definition round_half_even :: "int \<Rightarrow> int \<Rightarrow> int" where
  "round_half_even n d =
     (let q = n div d; r = n mod d
      in if d < 2 * r \<or> (2 * r = d \<and> odd q) then q + 1 else q)"

text \<open>The \<open>k\<close> with \<open>2 ^ k \<le> n / d < 2 ^ (k + 1)\<close>, for positive \<open>n\<close> and \<open>d\<close>.\<close>

definition floor_log2 :: "int \<Rightarrow> int \<Rightarrow> int" where
  "floor_log2 n d =
     (let k = bit_length n - bit_length d
      in if (if 0 \<le> k then d * 2 ^ nat k \<le> n else d \<le> n * 2 ^ nat (- k)) then k else k - 1)"

text \<open>
  The double nearest to \<open>(-1) ^ s * n / d\<close> (\<open>0 \<le> n\<close>, \<open>0 < d\<close>): the quantum \<open>2 ^ q\<close>
  is that of the binade of \<open>n / d\<close>, or the subnormal one; a significand that rounds up to
  \<open>2 ^ 53\<close> carries into the exponent field, and a result beyond the largest double is an
  infinity.
\<close>

definition round_to_double :: "bool \<Rightarrow> int \<Rightarrow> int \<Rightarrow> double" where
  "round_to_double s n d =
     (if n = 0 then make_double s 0
      else
        let q = max (floor_log2 n d - 52) (- 1074);
            m = (if 0 \<le> q then round_half_even n (d * 2 ^ nat q)
                 else round_half_even (n * 2 ^ nat (- q)) d);
            magnitude = (q + 1074) * 2 ^ 52 + m
        in if 2047 * 2 ^ 52 \<le> magnitude then infinity s else make_double s magnitude)"

text \<open>A decimal literal of the source: \<open>double_literal 105 1\<close> is \<^verbatim>\<open>10.5\<close>.\<close>

definition double_literal :: "int \<Rightarrow> nat \<Rightarrow> double" where
  "double_literal digits k = round_to_double False digits (10 ^ k)"

text \<open>The double nearest to \<open>(-1) ^ s * m * 2 ^ e\<close>.\<close>

definition round_dyadic :: "bool \<Rightarrow> int \<Rightarrow> int \<Rightarrow> double" where
  "round_dyadic s m e =
     (if 0 \<le> e then round_to_double s (m * 2 ^ nat e) 1 else round_to_double s m (2 ^ nat (- e)))"

text \<open>\<^verbatim>\<open>x * y\<close> on doubles.\<close>

definition dmul :: "double \<Rightarrow> double \<Rightarrow> double" where
  "dmul x y =
     (if is_nan x then quieted x
      else if is_nan y then quieted y
      else if is_infinite x \<or> is_infinite y then
        (if is_zero x \<or> is_zero y then default_nan else infinity (sign_bit x \<noteq> sign_bit y))
      else round_dyadic (sign_bit x \<noteq> sign_bit y) (significand x * significand y)
             (exponent x + exponent y))"

text \<open>The finite double \<open>x\<close> as a signed multiple of \<open>2 ^ e\<close>, for \<open>e \<le> exponent x\<close>.\<close>

definition scaled_int :: "double \<Rightarrow> int \<Rightarrow> int" where
  "scaled_int x e = (if sign_bit x then - 1 else 1) * significand x * 2 ^ nat (exponent x - e)"

text \<open>
  \<^verbatim>\<open>x + y\<close> on doubles. An exact sum that is zero is \<open>+0\<close>, unless both operands are
  \<open>-0\<close>.
\<close>

definition dadd :: "double \<Rightarrow> double \<Rightarrow> double" where
  "dadd x y =
     (if is_nan x then quieted x
      else if is_nan y then quieted y
      else if is_infinite x then
        (if is_infinite y \<and> sign_bit x \<noteq> sign_bit y then default_nan else x)
      else if is_infinite y then y
      else
        let e = min (exponent x) (exponent y);
            v = scaled_int x e + scaled_int y e
        in if v = 0 then make_double (sign_bit x \<and> sign_bit y) 0
           else round_dyadic (v < 0) \<bar>v\<bar> e)"

text \<open>The real number that a finite double denotes.\<close>

definition valof :: "double \<Rightarrow> real" where
  "valof x = (if sign_bit x then - 1 else 1) * real_of_int (significand x) * 2 powi exponent x"

section \<open>Formatted output: \<open>std::ostream\<close>\<close>

text \<open>
  The text of a double is that of \<^verbatim>\<open>printf\<close>, which \<^verbatim>\<open>operator<<\<close> is specified by:
  \<^verbatim>\<open>%.pf\<close> when \<^verbatim>\<open>std::fixed\<close> is set and \<^verbatim>\<open>%.pg\<close> otherwise, \<open>p\<close> the stream's
  precision. The decimal digits are those of the exact value, rounded to nearest, ties to
  even; an infinity is \<^verbatim>\<open>inf\<close> and a NaN is \<^verbatim>\<open>nan\<close>, after the sign.
\<close>

definition digit_char :: "int \<Rightarrow> char" where
  "digit_char d = char_of (48 + d)"

function decimal_digits :: "int \<Rightarrow> string" where
  "decimal_digits n =
     (if n < 10 then [digit_char n] else decimal_digits (n div 10) @ [digit_char (n mod 10)])"
  by pat_completeness auto
termination
  by (relation "measure nat") auto

declare decimal_digits.simps [simp del]

definition zero_pad :: "nat \<Rightarrow> string \<Rightarrow> string" where
  "zero_pad p ds = replicate (p - length ds) (CHR ''0'') @ ds"

definition sign_text :: "double \<Rightarrow> string" where
  "sign_text x = (if sign_bit x then ''-'' else [])"

definition nonfinite_text :: "double \<Rightarrow> string" where
  "nonfinite_text x = (if is_nan x then ''nan'' else ''inf'')"

text \<open>\<open>n / d * 10 ^ k\<close> rounded to an integer.\<close>

definition round_scaled :: "int \<Rightarrow> int \<Rightarrow> int \<Rightarrow> int" where
  "round_scaled n d k =
     (if 0 \<le> k then round_half_even (n * 10 ^ nat k) d else round_half_even n (d * 10 ^ nat (- k)))"

text \<open>The magnitude of a finite double as a fraction.\<close>

definition numerator :: "double \<Rightarrow> int" where
  "numerator x = (if 0 \<le> exponent x then significand x * 2 ^ nat (exponent x) else significand x)"

definition denominator :: "double \<Rightarrow> int" where
  "denominator x = (if 0 \<le> exponent x then 1 else 2 ^ nat (- exponent x))"

text \<open>\<^verbatim>\<open>%.pf\<close> of the magnitude \<open>n / d\<close>.\<close>

definition fixed_text :: "nat \<Rightarrow> int \<Rightarrow> int \<Rightarrow> string" where
  "fixed_text p n d =
     (let r = round_scaled n d (int p)
      in decimal_digits (r div 10 ^ p) @
         (if p = 0 then [] else ''.'' @ zero_pad p (decimal_digits (r mod 10 ^ p))))"

definition format_fixed :: "nat \<Rightarrow> double \<Rightarrow> string" where
  "format_fixed p x =
     sign_text x @
     (if is_finite x then fixed_text p (numerator x) (denominator x) else nonfinite_text x)"

text \<open>The \<open>k\<close> with \<open>10 ^ k \<le> n / d < 10 ^ (k + 1)\<close>, for positive \<open>n\<close> and \<open>d\<close>.\<close>

function log10_up :: "int \<Rightarrow> int \<Rightarrow> int" where
  "log10_up n d = (if d \<le> 0 \<or> n < 10 * d then 0 else 1 + log10_up n (10 * d))"
  by pat_completeness auto
termination
  by (relation "measure (\<lambda>(n, d). nat (n - d))") auto

function log10_down :: "int \<Rightarrow> int \<Rightarrow> int" where
  "log10_down n d = (if n \<le> 0 \<or> d \<le> n then 0 else log10_down (10 * n) d - 1)"
  by pat_completeness auto
termination
  by (relation "measure (\<lambda>(n, d). nat (d - n))") auto

declare log10_up.simps [simp del] log10_down.simps [simp del]

definition floor_log10 :: "int \<Rightarrow> int \<Rightarrow> int" where
  "floor_log10 n d = (if d \<le> n then log10_up n d else log10_down n d)"

text \<open>\<^verbatim>\<open>%g\<close> removes the zeros that end a fractional part, and the point with them.\<close>

definition strip_zeros :: "string \<Rightarrow> string" where
  "strip_zeros s =
     (if CHR ''.'' \<in> set s
      then (let t = rev (dropWhile (\<lambda>c. c = CHR ''0'') (rev s))
            in if t \<noteq> [] \<and> last t = CHR ''.'' then butlast t else t)
      else s)"

definition exponent_text :: "int \<Rightarrow> string" where
  "exponent_text e = ''e'' @ (if e < 0 then ''-'' else ''+'') @ zero_pad 2 (decimal_digits \<bar>e\<bar>)"

text \<open>\<^verbatim>\<open>%.pg\<close> of the magnitude \<open>n / d\<close>: \<open>e\<close> is the decimal exponent after rounding to
  \<open>p\<close> significant digits.\<close>

definition general_text :: "nat \<Rightarrow> int \<Rightarrow> int \<Rightarrow> string" where
  "general_text p0 n d =
     (if n = 0 then ''0''
      else
        let p = int (max p0 1);
            e0 = floor_log10 n d;
            e = (if 10 ^ nat p \<le> round_scaled n d (p - 1 - e0) then e0 + 1 else e0)
        in if - 4 \<le> e \<and> e < p then strip_zeros (fixed_text (nat (p - 1 - e)) n d)
           else
             let ds = decimal_digits (round_scaled n d (p - 1 - e))
             in strip_zeros (case ds of [] \<Rightarrow> [] | c # cs \<Rightarrow> c # ''.'' @ cs) @ exponent_text e)"

definition format_general :: "nat \<Rightarrow> double \<Rightarrow> string" where
  "format_general p x =
     sign_text x @
     (if is_finite x then general_text p (numerator x) (denominator x) else nonfinite_text x)"


text \<open>
  The part of a \<^verbatim>\<open>std::ostream\<close> the program uses: the characters written so far, and
  the two format settings that \<^verbatim>\<open>std::fixed\<close> and \<^verbatim>\<open>std::setprecision\<close> leave in
  the stream. \<^verbatim>\<open>std::endl\<close> writes a newline (and flushes, which changes no text).
\<close>

record ostream =
  buffer :: string
  fixed_flag :: bool
  precision :: nat

definition put_string :: "string \<Rightarrow> ostream \<Rightarrow> ostream" where
  "put_string s os = os\<lparr>buffer := buffer os @ s\<rparr>"

definition endl :: "ostream \<Rightarrow> ostream" where
  "endl os = put_string ''\<newline>'' os"

definition std_fixed :: "ostream \<Rightarrow> ostream" where
  "std_fixed os = os\<lparr>fixed_flag := True\<rparr>"

definition setprecision :: "nat \<Rightarrow> ostream \<Rightarrow> ostream" where
  "setprecision n os = os\<lparr>precision := n\<rparr>"

definition put_double :: "double \<Rightarrow> ostream \<Rightarrow> ostream" where
  "put_double x os =
     put_string (if fixed_flag os then format_fixed (precision os) x
                 else format_general (precision os) x) os"

definition put_size :: "nat \<Rightarrow> ostream \<Rightarrow> ostream" where
  "put_size n os = put_string (decimal_digits (int n)) os"

section \<open>The program state\<close>

text \<open>
  The state outside the objects is \<^verbatim>\<open>std::cout\<close>. With it go two logs that the program
  itself does not keep. \<open>calls\<close> lists the calls of \<^verbatim>\<open>calculateFare\<close>, each with the id
  of the ride it ran on; it is there to count the invocations. \<open>effects\<close> lists, in the
  order in which they happen, the output statements (each with the characters it appends
  to \<^verbatim>\<open>std::cout\<close>) and the appends of a ride to a rider's \<^verbatim>\<open>requestedRides\<close> (each
  with the id of the ride); it is there to order the store of \<^verbatim>\<open>requestRide\<close> against
  what has been written.
\<close>

datatype event = CalculateFare string

datatype effect = Wrote string | Stored string

record world =
  cout :: ostream
  calls :: "event list"
  effects :: "effect list"

text \<open>The characters that the insertions \<open>fs\<close> append to the stream \<open>os\<close>.\<close>

definition written :: "(ostream \<Rightarrow> ostream) list \<Rightarrow> ostream \<Rightarrow> string" where
  "written fs os = drop (length (buffer os)) (buffer (fold (\<lambda>f os. f os) fs os))"

text \<open>The statement \<^verbatim>\<open>std::cout << a << b << ...;\<close>: the insertions, left to right.\<close>

definition to_cout :: "(ostream \<Rightarrow> ostream) list \<Rightarrow> world \<Rightarrow> world" where
  "to_cout fs w =
     w\<lparr>cout := fold (\<lambda>f os. f os) fs (cout w),
       effects := effects w @ [Wrote (written fs (cout w))]\<rparr>"

section \<open>\<open>Ride\<close>, \<open>StandardRide\<close> and \<open>PremiumRide\<close>\<close>

text \<open>
  The data members of class \<^verbatim>\<open>Ride\<close>. The two derived classes add none, so an object
  behind a \<^verbatim>\<open>std::unique_ptr<Ride>\<close> is its \<^verbatim>\<open>Ride\<close> part tagged with its class, and
  a virtual call dispatches on the tag.
\<close>

record Ride =
  rideID :: string
  pickupLocation :: string
  dropoffLocation :: string
  distance :: double
  fare :: double

datatype Ride_object = StandardRide Ride | PremiumRide Ride

fun Ride_of :: "Ride_object \<Rightarrow> Ride" where
  "Ride_of (StandardRide this) = this"
| "Ride_of (PremiumRide this) = this"

definition Ride_ctor :: "string \<Rightarrow> string \<Rightarrow> string \<Rightarrow> double \<Rightarrow> Ride" where
  "Ride_ctor id' pickup dropoff dist' =
     \<lparr>rideID = id', pickupLocation = pickup, dropoffLocation = dropoff, distance = dist',
      fare = double_literal 0 1\<rparr>"

definition rideDetails :: "Ride \<Rightarrow> world \<Rightarrow> world" where
  "rideDetails this w =
     (let w = to_cout [put_string ''Ride ID: '', put_string (rideID this), endl] w;
          w = to_cout [put_string ''  Pickup: '', put_string (pickupLocation this), endl] w;
          w = to_cout [put_string ''  Dropoff: '', put_string (dropoffLocation this), endl] w;
          w = to_cout [put_string ''  Distance: '', std_fixed, setprecision 1,
                       put_double (distance this), put_string '' miles'', endl] w;
          w = to_cout [put_string ''  Fare: $'', std_fixed, setprecision 2,
                       put_double (fare this), endl] w
      in w)"

definition getFare :: "Ride \<Rightarrow> double" where
  "getFare this = fare this"

definition getRideID :: "Ride \<Rightarrow> string" where
  "getRideID this = rideID this"

definition StandardRide_RATE_PER_MILE :: double where
  "StandardRide_RATE_PER_MILE = double_literal 20 1"

definition StandardRide_calculateFare :: "Ride \<Rightarrow> world \<Rightarrow> Ride \<times> world" where
  "StandardRide_calculateFare this w =
     (this\<lparr>fare := dmul (distance this) StandardRide_RATE_PER_MILE\<rparr>,
      w\<lparr>calls := calls w @ [CalculateFare (rideID this)]\<rparr>)"

definition StandardRide_ctor ::
  "string \<Rightarrow> string \<Rightarrow> string \<Rightarrow> double \<Rightarrow> world \<Rightarrow> Ride_object \<times> world" where
  "StandardRide_ctor id' pickup dropoff dist' w =
     (let this = Ride_ctor id' pickup dropoff dist';
          (this, w) = StandardRide_calculateFare this w
      in (StandardRide this, w))"

definition PremiumRide_RATE_PER_MILE :: double where
  "PremiumRide_RATE_PER_MILE = double_literal 35 1"

definition PremiumRide_PREMIUM_SURCHARGE :: double where
  "PremiumRide_PREMIUM_SURCHARGE = double_literal 50 1"

definition PremiumRide_calculateFare :: "Ride \<Rightarrow> world \<Rightarrow> Ride \<times> world" where
  "PremiumRide_calculateFare this w =
     (this\<lparr>fare := dadd (dmul (distance this) PremiumRide_RATE_PER_MILE)
                         PremiumRide_PREMIUM_SURCHARGE\<rparr>,
      w\<lparr>calls := calls w @ [CalculateFare (rideID this)]\<rparr>)"

definition PremiumRide_ctor ::
  "string \<Rightarrow> string \<Rightarrow> string \<Rightarrow> double \<Rightarrow> world \<Rightarrow> Ride_object \<times> world" where
  "PremiumRide_ctor id' pickup dropoff dist' w =
     (let this = Ride_ctor id' pickup dropoff dist';
          (this, w) = PremiumRide_calculateFare this w
      in (PremiumRide this, w))"

text \<open>The virtual call \<^verbatim>\<open>ride->calculateFare()\<close>.\<close>

fun calculateFare :: "Ride_object \<Rightarrow> world \<Rightarrow> Ride_object \<times> world" where
  "calculateFare (StandardRide this) w =
     (let (this, w) = StandardRide_calculateFare this w in (StandardRide this, w))"
| "calculateFare (PremiumRide this) w =
     (let (this, w) = PremiumRide_calculateFare this w in (PremiumRide this, w))"

section \<open>\<open>Driver\<close> and \<open>Rider\<close>\<close>

record Driver =
  driverID :: string
  name :: string
  rating :: double
  assignedRides :: "Ride_object list"

definition Driver_ctor :: "string \<Rightarrow> string \<Rightarrow> double \<Rightarrow> Driver" where
  "Driver_ctor id' n r = \<lparr>driverID = id', name = n, rating = r, assignedRides = []\<rparr>"

definition addRide :: "Ride_object \<Rightarrow> Driver \<Rightarrow> Driver" where
  "addRide ride this = this\<lparr>assignedRides := assignedRides this @ [ride]\<rparr>"

text \<open>The loop of \<^verbatim>\<open>getDriverInfo\<close> and of \<^verbatim>\<open>viewRides\<close> over the vector, front to back.\<close>

primrec print_rides :: "Ride_object list \<Rightarrow> world \<Rightarrow> world" where
  "print_rides [] w = w"
| "print_rides (ride # rides) w =
     (let w = rideDetails (Ride_of ride) w;
          w = to_cout [put_string ''--------------------'', endl] w
      in print_rides rides w)"

definition getDriverInfo :: "Driver \<Rightarrow> world \<Rightarrow> world" where
  "getDriverInfo this w =
     (let w = to_cout [put_string ''\<newline>--- Driver Details ---'', endl] w;
          w = to_cout [put_string ''Driver ID: '', put_string (driverID this), endl] w;
          w = to_cout [put_string ''Name: '', put_string (Driver.name this), endl] w;
          w = to_cout [put_string ''Rating: '', std_fixed, setprecision 1,
                       put_double (rating this), put_string ''/5.0'', endl] w;
          w = to_cout [put_string ''Completed Rides ('', put_size (length (assignedRides this)),
                       put_string ''):'', endl] w
      in if assignedRides this = []
         then to_cout [put_string ''  No rides completed yet.'', endl] w
         else print_rides (assignedRides this) w)"

record Rider =
  riderID :: string
  name :: string
  requestedRides :: "Ride_object list"

definition Rider_ctor :: "string \<Rightarrow> string \<Rightarrow> Rider" where
  "Rider_ctor id' n = \<lparr>riderID = id', name = n, requestedRides = []\<rparr>"

text \<open>The three statements of \<^verbatim>\<open>requestRide\<close>, in the order of the source.\<close>

definition requestRide_notify :: "Rider \<times> world \<Rightarrow> Rider \<times> world" where
  "requestRide_notify s =
     (case s of (this, w) \<Rightarrow>
        (this, to_cout [put_string ''\<newline>'', put_string (Rider.name this),
                        put_string '' requested a ride.'', endl] w))"

definition requestRide_show :: "Ride_object \<Rightarrow> Rider \<times> world \<Rightarrow> Rider \<times> world" where
  "requestRide_show ride s = (case s of (this, w) \<Rightarrow> (this, rideDetails (Ride_of ride) w))"

definition requestRide_store :: "Ride_object \<Rightarrow> Rider \<times> world \<Rightarrow> Rider \<times> world" where
  "requestRide_store ride s =
     (case s of (this, w) \<Rightarrow>
        (this\<lparr>requestedRides := requestedRides this @ [ride]\<rparr>,
         w\<lparr>effects := effects w @ [Stored (rideID (Ride_of ride))]\<rparr>))"

definition requestRide :: "Ride_object \<Rightarrow> Rider \<Rightarrow> world \<Rightarrow> Rider \<times> world" where
  "requestRide ride this w =
     requestRide_store ride (requestRide_show ride (requestRide_notify (this, w)))"

definition viewRides :: "Rider \<Rightarrow> world \<Rightarrow> world" where
  "viewRides this w =
     (let w = to_cout [put_string ''\<newline>--- '', put_string (Rider.name this),
                       put_string (CHR 0x27 # ''s Ride History ---''), endl] w
      in if requestedRides this = []
         then to_cout [put_string ''  No rides requested yet.'', endl] w
         else print_rides (requestedRides this) w)"

section \<open>The demonstration\<close>

text \<open>The loop over \<^verbatim>\<open>systemRides\<close>: each ride has its fare computed again, then is shown.\<close>

primrec demonstrate_loop :: "Ride_object list \<Rightarrow> world \<Rightarrow> Ride_object list \<times> world" where
  "demonstrate_loop [] w = ([], w)"
| "demonstrate_loop (ride # rides) w =
     (let (ride, w) = calculateFare ride w;
          w = rideDetails (Ride_of ride) w;
          w = to_cout [put_string ''--------------------'', endl] w;
          (rides, w) = demonstrate_loop rides w
      in (ride # rides, w))"

text \<open>
  The body of \<^verbatim>\<open>demonstrateSystemFunctionality\<close>, statement by statement. It returns,
  with the state, the three local objects that own rides, as they are when the function
  reaches its end.
\<close>

record locals =
  sandesh :: Rider
  alice :: Driver
  systemRides :: "Ride_object list"

definition demonstration :: "world \<Rightarrow> locals \<times> world" where
  "demonstration w =
     (let w = to_cout [put_string ''--- C++ Ride Sharing System Demonstration ---'', endl] w;
          sandesh = Rider_ctor ''R001'' ''Sandesh Shrestha'';
          (ride1, w) = StandardRide_ctor ''S001'' ''Downtown'' ''Suburb A'' (double_literal 105 1) w;
          (ride2, w) = PremiumRide_ctor ''P002'' ''Airport'' ''City Center'' (double_literal 250 1) w;
          (ride3, w) = StandardRide_ctor ''S003'' ''Park'' ''Museum'' (double_literal 32 1) w;
          (sandesh, w) = requestRide ride1 sandesh w;
          (sandesh, w) = requestRide ride2 sandesh w;
          (sandesh, w) = requestRide ride3 sandesh w;
          alice = Driver_ctor ''D001'' ''Alice Smith'' (double_literal 48 1);
          (completedRide1_driver, w) =
             StandardRide_ctor ''S001-C'' ''Downtown'' ''Suburb A'' (double_literal 105 1) w;
          (completedRide2_driver, w) =
             PremiumRide_ctor ''P002-C'' ''Airport'' ''City Center'' (double_literal 250 1) w;
          (completedRide3_driver, w) =
             StandardRide_ctor ''S003-C'' ''Park'' ''Museum'' (double_literal 32 1) w;
          alice = addRide completedRide1_driver alice;
          alice = addRide completedRide2_driver alice;
          alice = addRide completedRide3_driver alice;
          w = getDriverInfo alice w;
          w = viewRides sandesh w;
          w = to_cout [put_string
                ''\<newline>--- Polymorphism Demonstration (List of All Rides in System) ---'',
                endl] w;
          systemRides = [];
          (r, w) = StandardRide_ctor ''SysR01'' ''Library'' ''Cafe'' (double_literal 70 1) w;
          systemRides = systemRides @ [r];
          (r, w) = PremiumRide_ctor ''SysR02'' ''Mall'' ''Home'' (double_literal 45 1) w;
          systemRides = systemRides @ [r];
          (r, w) = StandardRide_ctor ''SysR03'' ''Gym'' ''Cafe'' (double_literal 20 1) w;
          systemRides = systemRides @ [r];
          (r, w) = PremiumRide_ctor ''SysR04'' ''School'' ''Park'' (double_literal 120 1) w;
          systemRides = systemRides @ [r];
          (systemRides, w) = demonstrate_loop systemRides w;
          w = to_cout [put_string ''\<newline>--- Demonstration Complete ---'', endl] w
      in (\<lparr>sandesh = sandesh, alice = alice, systemRides = systemRides\<rparr>, w))"

definition demonstrateSystemFunctionality :: "world \<Rightarrow> world" where
  "demonstrateSystemFunctionality w = snd (demonstration w)"

definition main :: "world \<Rightarrow> int \<times> world" where
  "main w = (0, demonstrateSystemFunctionality w)"

text \<open>The state in which \<^verbatim>\<open>main\<close> starts: nothing written, the stream's defaults.\<close>

definition initial_world :: world where
  "initial_world =
     \<lparr>cout = \<lparr>buffer = [], fixed_flag = False, precision = 6\<rparr>, calls = [], effects = []\<rparr>"

section \<open>Notions of the specification\<close>

text \<open>The text that \<^verbatim>\<open>rideDetails\<close> writes for a ride, and a block of a history.\<close>

definition details_text :: "Ride \<Rightarrow> string" where
  "details_text r =
     ''Ride ID: '' @ rideID r @ ''\<newline>'' @
     ''  Pickup: '' @ pickupLocation r @ ''\<newline>'' @
     ''  Dropoff: '' @ dropoffLocation r @ ''\<newline>'' @
     ''  Distance: '' @ format_fixed 1 (distance r) @ '' miles\<newline>'' @
     ''  Fare: $'' @ format_fixed 2 (fare r) @ ''\<newline>''"

definition block_text :: "Ride_object \<Rightarrow> string" where
  "block_text ride = details_text (Ride_of ride) @ ''--------------------\<newline>''"

text \<open>The lines that \<^verbatim>\<open>getDriverInfo\<close> writes before the rides, for \<open>n\<close> rides.\<close>

definition driver_header :: "Driver \<Rightarrow> string" where
  "driver_header d =
     ''\<newline>--- Driver Details ---\<newline>'' @
     ''Driver ID: '' @ driverID d @ ''\<newline>'' @
     ''Name: '' @ Driver.name d @ ''\<newline>'' @
     ''Rating: '' @ format_fixed 1 (rating d) @ ''/5.0\<newline>'' @
     ''Completed Rides ('' @ decimal_digits (int (length (assignedRides d))) @ ''):\<newline>''"

definition rider_header :: "Rider \<Rightarrow> string" where
  "rider_header r = ''\<newline>--- '' @ Rider.name r @ CHR 0x27 # ''s Ride History ---\<newline>''"

text \<open>
  A text with exactly \<open>p\<close> fractional digits: an optional minus sign, at least one
  digit, a point, and \<open>p\<close> digits to the end.
\<close>

definition is_digit :: "char \<Rightarrow> bool" where
  "is_digit c = (c \<in> set ''0123456789'')"

definition unsigned_part :: "string \<Rightarrow> string" where
  "unsigned_part s = (case s of [] \<Rightarrow> [] | c # cs \<Rightarrow> if c = CHR ''-'' then cs else s)"

definition has_fraction_digits :: "nat \<Rightarrow> string \<Rightarrow> bool" where
  "has_fraction_digits p s =
     (let t = unsigned_part s
      in takeWhile is_digit t \<noteq> [] \<and>
         (case dropWhile is_digit t of
            [] \<Rightarrow> False
          | c # fp \<Rightarrow> c = CHR ''.'' \<and> length fp = p \<and> list_all is_digit fp))"

text \<open>How often \<^verbatim>\<open>calculateFare\<close> has run on the ride with the given id.\<close>

definition invocations :: "string \<Rightarrow> world \<Rightarrow> nat" where
  "invocations i w = count_list (calls w) (CalculateFare i)"

section \<open>The arithmetic of doubles\<close>

text \<open>
  Facts about the model of \<open>double\<close>: the fields of an encoded double, the binade that
  \<open>floor_log2\<close> finds, and that rounding returns a representable value as it is. They
  give the product with \<^verbatim>\<open>2.0\<close> as a real number.
\<close>

subsection \<open>The binade of a fraction\<close>

lemma bit_length_bounds:
  "0 < n \<Longrightarrow> 1 \<le> bit_length n \<and> 2 ^ nat (bit_length n - 1) \<le> n \<and> n < 2 ^ nat (bit_length n)"
proof (induction n rule: bit_length.induct)
  case (1 n)
  show ?case
  proof (cases "n div 2 = 0")
    case True
    with 1(2) have "n = 1" by presburger
    then show ?thesis
      by (simp add: bit_length.simps [of 1] bit_length.simps [of 0])
  next
    case False
    with 1(2) have pos: "0 < n div 2" by presburger
    define b where "b = bit_length (n div 2)"
    from 1(1) pos 1(2) have ih: "1 \<le> b" "2 ^ nat (b - 1) \<le> n div 2" "n div 2 < 2 ^ nat b"
      by (simp_all add: b_def)
    have bl: "bit_length n = 1 + b"
      using 1(2) by (subst bit_length.simps) (simp add: b_def)
    from ih(1) have nb: "nat b = Suc (nat (b - 1))" by simp
    have "2 ^ nat b \<le> n"
      using ih(2) by (simp add: nb)
    moreover have "n < 2 ^ nat (1 + b)"
    proof -
      have "nat (1 + b) = Suc (nat b)" using ih(1) by simp
      with ih(3) show ?thesis by simp
    qed
    ultimately show ?thesis using ih(1) by (simp add: bl)
  qed
qed

lemma bit_length_real:
  assumes "0 < n"
  shows "2 powi (bit_length n - 1) \<le> real_of_int n" "real_of_int n < 2 powi (bit_length n)"
proof -
  from bit_length_bounds [OF assms]
  have b: "1 \<le> bit_length n" "2 ^ nat (bit_length n - 1) \<le> n" "n < 2 ^ nat (bit_length n)"
    by simp_all
  have "real_of_int (2 ^ nat (bit_length n - 1)) \<le> real_of_int n"
    using b(2) by (rule of_int_le_iff [THEN iffD2])
  then show "2 powi (bit_length n - 1) \<le> real_of_int n"
    using b(1) by (simp add: power_int_def)
  have "real_of_int n < real_of_int (2 ^ nat (bit_length n))"
    using b(3) by (rule of_int_less_iff [THEN iffD2])
  then show "real_of_int n < 2 powi (bit_length n)"
    using b(1) by (simp add: power_int_def)
qed

lemma powi_test:
  "0 < d \<Longrightarrow> (if 0 \<le> k then d * 2 ^ nat k \<le> n else d \<le> n * 2 ^ nat (- k)) \<longleftrightarrow>
     2 powi k \<le> real_of_int n / real_of_int d"
proof (cases "0 \<le> k")
  case True
  assume d: "0 < d"
  have "d * 2 ^ nat k \<le> n \<longleftrightarrow> real_of_int (d * 2 ^ nat k) \<le> real_of_int n"
    by (simp only: of_int_le_iff)
  also have "\<dots> \<longleftrightarrow> 2 powi k \<le> real_of_int n / real_of_int d"
    using d True by (simp add: power_int_def field_simps)
  finally show ?thesis using True by simp
next
  case False
  assume d: "0 < d"
  have "d \<le> n * 2 ^ nat (- k) \<longleftrightarrow> real_of_int d \<le> real_of_int (n * 2 ^ nat (- k))"
    by (simp only: of_int_le_iff)
  also have "\<dots> \<longleftrightarrow> 2 powi k \<le> real_of_int n / real_of_int d"
    using d False by (simp add: power_int_def field_simps)
  finally show ?thesis using False by simp
qed

lemma floor_log2_bounds:
  assumes "0 < n" "0 < d"
  shows "2 powi (floor_log2 n d) \<le> real_of_int n / real_of_int d"
    and "real_of_int n / real_of_int d < 2 powi (floor_log2 n d + 1)"
proof -
  define k where "k = bit_length n - bit_length d"
  define r where "r = real_of_int n / real_of_int d"
  note bn = bit_length_real [OF assms(1)] and bd = bit_length_real [OF assms(2)]
  have dpos: "0 < real_of_int d" using assms(2) by simp
  have e: "(2::real) powi a / 2 powi b = 2 powi (a - b)" for a b
    by (simp add: power_int_diff)
  have x1: "bit_length n - (bit_length d - 1) = k + 1" by (simp add: k_def)
  have x2: "bit_length n - 1 - bit_length d = k - 1" by (simp add: k_def)
  have up: "r < 2 powi (k + 1)"
  proof -
    have "r < 2 powi (bit_length n) / 2 powi (bit_length d - 1)"
      unfolding r_def
      by (rule frac_less) (use bn bd assms in \<open>simp_all add: less_imp_le\<close>)
    also have "\<dots> = 2 powi (k + 1)"
      by (simp only: e x1)
    finally show ?thesis .
  qed
  have lo: "2 powi (k - 1) \<le> r"
  proof -
    have "2 powi (bit_length n - 1) / 2 powi (bit_length d) \<le> r"
      unfolding r_def
      by (rule frac_le) (use bn bd assms in \<open>simp_all add: less_imp_le\<close>)
    moreover have "2 powi (bit_length n - 1) / 2 powi (bit_length d) = (2::real) powi (k - 1)"
      by (simp only: e x2)
    ultimately show ?thesis by simp
  qed
  have fl: "floor_log2 n d = (if 2 powi k \<le> r then k else k - 1)"
  proof -
    have "floor_log2 n d =
        (if (if 0 \<le> k then d * 2 ^ nat k \<le> n else d \<le> n * 2 ^ nat (- k)) then k else k - 1)"
      by (simp only: floor_log2_def Let_def k_def)
    then show ?thesis
      by (simp only: powi_test [OF assms(2)] r_def)
  qed
  show "2 powi (floor_log2 n d) \<le> real_of_int n / real_of_int d"
    using lo by (simp add: fl r_def [symmetric])
  show "real_of_int n / real_of_int d < 2 powi (floor_log2 n d + 1)"
    using up by (auto simp add: fl r_def [symmetric])
qed

lemma floor_log2_unique:
  assumes "0 < n" "0 < d"
    and "2 powi k \<le> real_of_int n / real_of_int d" "real_of_int n / real_of_int d < 2 powi (k + 1)"
  shows "floor_log2 n d = k"
proof -
  note b = floor_log2_bounds [OF assms(1,2)]
  have "(2::real) powi k < 2 powi (floor_log2 n d + 1)"
    using assms(3) b(2) by (rule le_less_trans)
  then have 1: "k < floor_log2 n d + 1"
    by (metis linorder_not_less power_int_increasing one_le_numeral)
  have "(2::real) powi (floor_log2 n d) < 2 powi (k + 1)"
    using b(1) assms(4) by (rule le_less_trans)
  then have 2: "floor_log2 n d < k + 1"
    by (metis linorder_not_less power_int_increasing one_le_numeral)
  from 1 2 show ?thesis by simp
qed

subsection \<open>The fields of an encoded double\<close>

lemma uint_make_double:
  assumes "0 \<le> mag" "mag < 2 ^ 63"
  shows "uint (make_double s mag) = (if s then 2 ^ 63 else 0) + mag"
proof -
  have u: "uint (word_of_int mag :: 64 word) = mag"
    using assms by (simp add: uint_word_of_int)
  show ?thesis
  proof (cases s)
    case False
    then show ?thesis by (simp add: make_double_def u)
  next
    case True
    have p: "uint (push_bit 63 1 :: 64 word) = 2 ^ 63"
      by simp
    have "\<not> bit (2 ^ 63 :: int) n \<or> \<not> bit mag n" for n
    proof (cases "n = 63")
      case True
      have "mag div 2 ^ 63 = 0" using assms by simp
      then have "\<not> bit mag 63" by (simp add: bit_iff_odd)
      with True show ?thesis by simp
    next
      case False
      have "bit ((2::int) ^ 63) n \<longleftrightarrow> n = 63"
        by (simp only: bit_exp_iff) simp
      with False show ?thesis by blast
    qed
    then have "(2 ^ 63 :: int) + mag = 2 ^ 63 OR mag"
      by (rule disjunctive_add)
    with True show ?thesis
      by (simp add: make_double_def uint_or u p del: push_bit_of_1)
  qed
qed

lemma sign_bit_uint: "sign_bit x = (2 ^ 63 \<le> uint x)"
proof -
  have "bit x 63 = bit (uint x) 63" by (simp add: bit_uint_iff)
  also have "\<dots> = odd (uint x div 2 ^ 63)" by (simp add: bit_iff_odd)
  also have "\<dots> = (2 ^ 63 \<le> uint x)"
  proof -
    have "uint x < 2 ^ 64" using uint_lt2p [of x] by simp
    moreover have "0 \<le> uint x" by simp
    ultimately have "uint x div 2 ^ 63 = (if 2 ^ 63 \<le> uint x then 1 else 0)"
      by (auto simp: div_pos_pos_trivial)
    then show ?thesis by simp
  qed
  finally show ?thesis by (simp add: sign_bit_def)
qed

lemma biased_exponent_uint: "biased_exponent x = uint x div 2 ^ 52 mod 2 ^ 11"
proof -
  have "uint (take_bit 11 (drop_bit 52 x)) = take_bit 11 (drop_bit 52 (take_bit 64 (uint x)))"
    by (simp only: unsigned_take_bit_eq unsigned_drop_bit_eq) simp
  also have "take_bit 64 (uint x) = uint x"
    by (rule take_bit_int_eq_self) (use uint_lt2p [of x] in simp_all)
  finally show ?thesis
    by (simp only: biased_exponent_def take_bit_eq_mod drop_bit_eq_div)
qed

lemma fraction_uint: "fraction x = uint x mod 2 ^ 52"
  by (simp only: fraction_def unsigned_take_bit_eq) (simp only: take_bit_eq_mod)

lemma high_bit_div:
  fixes mag :: int
  assumes "0 \<le> mag" "mag < 2 ^ 63"
  shows "(2 ^ 63 + mag) div 2 ^ 52 mod 2 ^ 11 = mag div 2 ^ 52"
    and "mag div 2 ^ 52 mod 2 ^ 11 = mag div 2 ^ 52"
    and "(2 ^ 63 + mag) mod 2 ^ 52 = mag mod 2 ^ 52"
proof -
  define k where "k = mag div 2 ^ 52"
  have k: "0 \<le> k" "k < 2 ^ 11"
    using assms by (simp_all add: k_def pos_imp_zdiv_nonneg_iff)
  have e: "(2::int) ^ 63 = 2 ^ 11 * 2 ^ 52" by simp
  have "((2::int) ^ 11 * 2 ^ 52 + mag) div 2 ^ 52 = 2 ^ 11 + k"
    unfolding k_def by (rule div_mult_self3) simp
  moreover have "(2 ^ 11 + k) mod 2 ^ 11 = k"
    using k by simp
  ultimately show "(2 ^ 63 + mag) div 2 ^ 52 mod 2 ^ 11 = mag div 2 ^ 52"
    by (simp only: e k_def)
  show "mag div 2 ^ 52 mod 2 ^ 11 = mag div 2 ^ 52"
    using k by (simp add: k_def)
  have "((2::int) ^ 11 * 2 ^ 52 + mag) mod 2 ^ 52 = mag mod 2 ^ 52"
    by (rule mod_mult_self3)
  then show "(2 ^ 63 + mag) mod 2 ^ 52 = mag mod 2 ^ 52"
    by (simp only: e)
qed

lemma decode_make_double:
  assumes "0 \<le> mag" "mag < 2 ^ 63"
  shows "sign_bit (make_double s mag) = s"
    and "biased_exponent (make_double s mag) = mag div 2 ^ 52"
    and "fraction (make_double s mag) = mag mod 2 ^ 52"
proof -
  note u = uint_make_double [OF assms]
  note h = high_bit_div [OF assms]
  show "sign_bit (make_double s mag) = s"
    using assms by (simp add: sign_bit_uint u)
  show "biased_exponent (make_double s mag) = mag div 2 ^ 52"
    by (cases s) (simp_all only: biased_exponent_uint u h if_True if_False add_0)
  show "fraction (make_double s mag) = mag mod 2 ^ 52"
    by (cases s) (simp_all only: fraction_uint u h if_True if_False add_0)
qed

subsection \<open>Rounding a representable value\<close>

lemma round_half_even_exact: "0 < d \<Longrightarrow> round_half_even (z * d) d = z"
  by (simp add: round_half_even_def)

lemma ratio_int_eq:
  assumes "0 < d" and "real_of_int n / real_of_int d = real_of_int m * 2 powi e"
  shows "(if 0 \<le> e then round_half_even n (d * 2 ^ nat e)
          else round_half_even (n * 2 ^ nat (- e)) d) = m"
proof (cases "0 \<le> e")
  case True
  from assms have "real_of_int n = real_of_int m * 2 powi e * real_of_int d"
    by (simp add: field_simps)
  also have "\<dots> = real_of_int (m * (d * 2 ^ nat e))"
    using True by (simp add: power_int_def)
  finally have "n = m * (d * 2 ^ nat e)"
    by (simp only: of_int_eq_iff)
  with True assms(1) show ?thesis
    by (simp only: if_True round_half_even_exact zero_less_mult_iff zero_less_power
        zero_less_numeral simp_thms)
next
  case False
  from assms have "real_of_int n = real_of_int m * 2 powi e * real_of_int d"
    by (simp add: field_simps)
  then have "real_of_int n * 2 ^ nat (- e) = real_of_int m * real_of_int d"
    using False by (simp add: power_int_def field_simps)
  then have "real_of_int (n * 2 ^ nat (- e)) = real_of_int (m * d)"
    by simp
  then have "n * 2 ^ nat (- e) = m * d"
    by (simp only: of_int_eq_iff)
  with False assms(1) show ?thesis
    by (simp only: if_False round_half_even_exact)
qed

lemma round_to_double_exact:
  assumes n: "0 < n" and d: "0 < d"
    and v: "real_of_int n / real_of_int d = real_of_int m * 2 powi e"
    and m: "0 < m" "m < 2 ^ 53" and e: "- 1074 \<le> e"
    and norm: "2 ^ 52 \<le> m \<or> e = - 1074"
  shows "round_to_double s n d =
     (if 2047 * 2 ^ 52 \<le> (e + 1074) * 2 ^ 52 + m then infinity s
      else make_double s ((e + 1074) * 2 ^ 52 + m))"
proof -
  have q: "max (floor_log2 n d - 52) (- 1074) = e"
  proof (cases "2 ^ 52 \<le> m")
    case True
    have "floor_log2 n d = e + 52"
    proof (rule floor_log2_unique [OF n d])
      have "(2::real) powi (e + 52) = 2 ^ 52 * 2 powi e"
        by (simp add: power_int_add)
      also have "\<dots> \<le> real_of_int m * 2 powi e"
        using True by (intro mult_right_mono) (simp_all add: of_int_le_iff [symmetric] del: of_int_le_iff)
      finally show "2 powi (e + 52) \<le> real_of_int n / real_of_int d"
        by (simp only: v)
      have "real_of_int m * 2 powi e < 2 ^ 53 * 2 powi e"
        using m(2) by (intro mult_strict_right_mono) (simp_all add: of_int_less_iff [symmetric] del: of_int_less_iff)
      also have "\<dots> = 2 powi (e + 52 + 1)"
        by (simp add: power_int_add)
      finally show "real_of_int n / real_of_int d < 2 powi (e + 52 + 1)"
        by (simp only: v)
    qed
    with e show ?thesis by simp
  next
    case False
    with norm have e': "e = - 1074" by simp
    have "2 powi (floor_log2 n d) \<le> real_of_int n / real_of_int d"
      by (rule floor_log2_bounds [OF n d])
    also have "\<dots> = real_of_int m * 2 powi (- 1074)"
      by (simp only: v e')
    also have "\<dots> < 2 ^ 52 * 2 powi (- 1074)"
      using False by (intro mult_strict_right_mono) (simp_all add: of_int_less_iff [symmetric] del: of_int_less_iff)
    also have "\<dots> = 2 powi (- 1022)"
      by (simp add: power_int_def field_simps)
    finally have "floor_log2 n d < - 1022"
      by (metis linorder_not_less power_int_increasing one_le_numeral)
    with e' show ?thesis by simp
  qed
  note r = ratio_int_eq [OF d v]
  from n have "n \<noteq> 0" by simp
  then show ?thesis
    by (simp only: round_to_double_def Let_def q r if_False)
qed

lemma round_dyadic_zero: "round_dyadic s 0 a = make_double s 0"
  by (simp add: round_dyadic_def round_to_double_def)

lemma round_dyadic_exact:
  assumes M: "0 < M"
    and v: "real_of_int M * 2 powi a = real_of_int m * 2 powi e"
    and m: "0 < m" "m < 2 ^ 53" and e: "- 1074 \<le> e"
    and norm: "2 ^ 52 \<le> m \<or> e = - 1074"
  shows "round_dyadic s M a =
     (if 2047 * 2 ^ 52 \<le> (e + 1074) * 2 ^ 52 + m then infinity s
      else make_double s ((e + 1074) * 2 ^ 52 + m))"
proof (cases "0 \<le> a")
  case True
  have "real_of_int (M * 2 ^ nat a) / real_of_int 1 = real_of_int m * 2 powi e"
    using True v by (simp add: power_int_def)
  from round_to_double_exact [OF _ _ this m e norm, of s] M True show ?thesis
    by (simp add: round_dyadic_def)
next
  case False
  have "real_of_int M / real_of_int (2 ^ nat (- a)) = real_of_int m * 2 powi e"
    using False v by (simp add: power_int_def field_simps)
  from round_to_double_exact [OF M _ this m e norm, of s] False show ?thesis
    by (simp add: round_dyadic_def)
qed

lemma fraction_bounds: "0 \<le> fraction x" "fraction x < 2 ^ 52"
  by (simp_all add: fraction_uint)

lemma biased_exponent_bounds: "0 \<le> biased_exponent x" "biased_exponent x < 2 ^ 11"
  by (simp_all add: biased_exponent_uint)

lemma decode_normal:
  assumes "0 \<le> e" "e < 2048" "0 \<le> f" "f < 2 ^ 52"
  shows "sign_bit (make_double s (e * 2 ^ 52 + f)) = s"
    and "biased_exponent (make_double s (e * 2 ^ 52 + f)) = e"
    and "fraction (make_double s (e * 2 ^ 52 + f)) = f"
proof -
  have lo: "0 \<le> e * 2 ^ 52 + f" using assms by simp
  have "e * 2 ^ 52 + f < 2048 * 2 ^ 52"
  proof -
    from assms(2) have "e + 1 \<le> 2048" by simp
    then have "(e + 1) * 2 ^ 52 \<le> 2048 * (2 ^ 52 :: int)"
      by (rule mult_right_mono) simp
    with assms(4) show ?thesis by (simp add: algebra_simps)
  qed
  then have hi: "e * 2 ^ 52 + f < 2 ^ 63" by simp
  note dm = decode_make_double [OF lo hi]
  show "sign_bit (make_double s (e * 2 ^ 52 + f)) = s" by (rule dm)
  have "(e * 2 ^ 52 + f) div 2 ^ 52 = e"
    using assms(3,4) by (simp add: div_pos_pos_trivial)
  then show "biased_exponent (make_double s (e * 2 ^ 52 + f)) = e"
    by (simp only: dm)
  have "(e * 2 ^ 52 + f) mod 2 ^ 52 = f"
    using assms(3,4) by (simp add: mod_pos_pos_trivial)
  then show "fraction (make_double s (e * 2 ^ 52 + f)) = f"
    by (simp only: dm)
qed

lemma valof_make_double:
  assumes m: "0 \<le> m" "m < 2 ^ 53" and e: "- 1074 \<le> e"
    and fin: "(e + 1074) * 2 ^ 52 + m < 2047 * 2 ^ 52"
    and norm: "2 ^ 52 \<le> m \<or> e = - 1074"
  shows "is_finite (make_double s ((e + 1074) * 2 ^ 52 + m))"
    and "sign_bit (make_double s ((e + 1074) * 2 ^ 52 + m)) = s"
    and "significand (make_double s ((e + 1074) * 2 ^ 52 + m)) = m"
    and "exponent (make_double s ((e + 1074) * 2 ^ 52 + m)) = e"
proof -
  define y where "y = make_double s ((e + 1074) * 2 ^ 52 + m)"
  have "is_finite y \<and> sign_bit y = s \<and> significand y = m \<and> exponent y = e"
  proof (cases "2 ^ 52 \<le> m")
    case True
    have eq: "(e + 1074) * 2 ^ 52 + m = (e + 1075) * 2 ^ 52 + (m - 2 ^ 52)"
      by (simp add: algebra_simps)
    have "(e + 1075) * 2 ^ 52 \<le> (e + 1074) * 2 ^ 52 + m"
      using True by (simp add: algebra_simps)
    with fin have "(e + 1075) * 2 ^ 52 < 2047 * (2 ^ 52 :: int)" by simp
    then have lt: "e + 1075 < 2047" by simp
    with e True m have c: "0 \<le> e + 1075" "e + 1075 < 2048" "0 \<le> m - 2 ^ 52" "m - 2 ^ 52 < 2 ^ 52"
      by simp_all
    note dn = decode_normal [OF c, of s]
    have y: "sign_bit y = s" "biased_exponent y = e + 1075" "fraction y = m - 2 ^ 52"
      by (simp_all only: y_def eq dn)
    from e lt show ?thesis
      by (simp add: is_finite_def significand_def exponent_def y)
  next
    case False
    with norm have e': "e = - 1074" by simp
    from False m have c: "(0::int) \<le> 0" "(0::int) < 2048" "0 \<le> m" "m < 2 ^ 52"
      by simp_all
    note dn = decode_normal [OF c, of s]
    have y: "sign_bit y = s" "biased_exponent y = 0" "fraction y = m"
      using dn by (simp_all add: y_def e')
    show ?thesis
      by (simp add: e' is_finite_def significand_def exponent_def y)
  qed
  then show "is_finite (make_double s ((e + 1074) * 2 ^ 52 + m))"
    and "sign_bit (make_double s ((e + 1074) * 2 ^ 52 + m)) = s"
    and "significand (make_double s ((e + 1074) * 2 ^ 52 + m)) = m"
    and "exponent (make_double s ((e + 1074) * 2 ^ 52 + m)) = e"
    by (simp_all only: y_def)
qed

lemma infinity_not_finite: "\<not> is_finite (infinity s)"
proof -
  have "biased_exponent (make_double s (2047 * 2 ^ 52 + 0)) = 2047"
    by (rule decode_normal) simp_all
  then show ?thesis by (simp add: is_finite_def infinity_def)
qed

subsection \<open>Doubling\<close>

lemma two_fields:
  "\<not> is_nan (double_literal 20 1)" "\<not> is_infinite (double_literal 20 1)"
  "\<not> sign_bit (double_literal 20 1)" "significand (double_literal 20 1) = 2 ^ 52"
  "exponent (double_literal 20 1) = - 51"
  by code_simp+

lemma finite_not_special: "is_finite x \<Longrightarrow> \<not> is_nan x \<and> \<not> is_infinite x"
  by (simp add: is_finite_def is_nan_def is_infinite_def)

lemma dmul_two_finite:
  assumes "is_finite x"
  shows "dmul x (double_literal 20 1) =
           round_dyadic (sign_bit x) (significand x * 2 ^ 52) (exponent x - 51)"
  using finite_not_special [OF assms]
  by (simp add: dmul_def two_fields del: One_nat_def)

lemma valof_zero: "significand x = 0 \<Longrightarrow> valof x = 0"
  by (simp add: valof_def)

lemma dmul_two_exact:
  assumes fin: "is_finite x" and small: "biased_exponent x < 2046"
  shows "is_finite (dmul x (double_literal 20 1)) \<and>
         sign_bit (dmul x (double_literal 20 1)) = sign_bit x \<and>
         valof (dmul x (double_literal 20 1)) = 2 * valof x"
proof -
  define s where "s = sign_bit x"
  define E where "E = biased_exponent x"
  define F where "F = fraction x"
  have F: "0 \<le> F" "F < 2 ^ 52"
    using fraction_bounds [of x] by (simp_all add: F_def)
  have E: "0 \<le> E" "E < 2046"
    using small biased_exponent_bounds [of x] by (simp_all add: E_def)
  note d = dmul_two_finite [OF fin, folded s_def]
  show ?thesis
  proof (cases "E = 0")
    case True
    then have sx: "significand x = F" "exponent x = - 1074"
      by (simp_all add: significand_def exponent_def E_def F_def)
    show ?thesis
    proof (cases "F = 0")
      case True
      have z: "(0::int) \<le> 0" "(0::int) < 2 ^ 53" "- 1074 \<le> (- 1074 :: int)"
        "(- 1074 + 1074) * 2 ^ 52 + 0 < 2047 * (2 ^ 52 :: int)" "2 ^ 52 \<le> (0::int) \<or> (- 1074 :: int) = - 1074"
        by simp_all
      note vz = valof_make_double [OF z, of s]
      from True have "dmul x (double_literal 20 1) = make_double s 0"
        by (simp only: d sx) (simp add: round_dyadic_zero)
      with vz True sx show ?thesis
        by (simp add: valof_def s_def)
    next
      case False
      with F have Fpos: "0 < F" by simp
      have M: "0 < F * 2 ^ 52" using Fpos by simp
      have v: "real_of_int (F * 2 ^ 52) * 2 powi (- 1074 - 51) = real_of_int (2 * F) * 2 powi (- 1074)"
        by (simp add: power_int_def field_simps)
      have c: "0 < 2 * F" "2 * F < 2 ^ 53" "- 1074 \<le> (- 1074 :: int)" "2 ^ 52 \<le> 2 * F \<or> (- 1074 :: int) = - 1074"
        using Fpos F by simp_all
      have nov: "(- 1074 + 1074) * 2 ^ 52 + 2 * F < 2047 * (2 ^ 52 :: int)"
        using F by simp
      have "dmul x (double_literal 20 1) = make_double s ((- 1074 + 1074) * 2 ^ 52 + 2 * F)"
        using round_dyadic_exact [OF M v c, of s] nov
        by (simp only: d sx) simp
      moreover note valof_make_double [OF less_imp_le [OF c(1)] c(2,3) nov c(4), of s]
      ultimately show ?thesis
        by (simp add: valof_def sx s_def)
    qed
  next
    case False
    with E have Epos: "1 \<le> E" by simp
    then have sx: "significand x = 2 ^ 52 + F" "exponent x = E - 1075"
      using False by (simp_all add: significand_def exponent_def E_def F_def)
    define m where "m = 2 ^ 52 + F"
    have M: "0 < m * 2 ^ 52" using F by (simp add: m_def)
    have v: "real_of_int (m * 2 ^ 52) * 2 powi (E - 1075 - 51) = real_of_int m * 2 powi (E - 1074)"
    proof -
      have "(2::real) powi (E - 1075 - 51 + 52) = 2 powi (E - 1075 - 51) * 2 powi 52"
        by (rule power_int_add) simp
      moreover have "E - 1075 - 51 + 52 = E - 1074" by simp
      ultimately have "(2::real) powi (E - 1074) = 2 powi (E - 1075 - 51) * 2 powi 52"
        by (simp only:)
      then show ?thesis by simp
    qed
    have c: "0 < m" "m < 2 ^ 53" "- 1074 \<le> E - 1074" "2 ^ 52 \<le> m \<or> E - 1074 = - 1074"
      using F E by (simp_all add: m_def)
    have nov: "(E - 1074 + 1074) * 2 ^ 52 + m < 2047 * (2 ^ 52 :: int)"
    proof -
      from E(2) have "E + 2 \<le> 2047" by simp
      then have "(E + 2) * 2 ^ 52 \<le> 2047 * (2 ^ 52 :: int)"
        by (rule mult_right_mono) simp
      with F(2) show ?thesis by (simp add: m_def algebra_simps)
    qed
    have "dmul x (double_literal 20 1) = make_double s ((E - 1074 + 1074) * 2 ^ 52 + m)"
      using round_dyadic_exact [OF M v c, of s] nov
      by (simp only: d sx m_def [symmetric]) simp
    moreover note valof_make_double [OF less_imp_le [OF c(1)] c(2,3) nov c(4), of s]
    ultimately show ?thesis
      by (simp add: valof_def sx s_def m_def power_int_diff)
  qed
qed

lemma dmul_two_overflow:
  assumes fin: "is_finite x" and big: "biased_exponent x = 2046"
  shows "dmul x (double_literal 20 1) = infinity (sign_bit x)"
proof -
  define F where "F = fraction x"
  define m where "m = 2 ^ 52 + F"
  have F: "0 \<le> F" "F < 2 ^ 52"
    using fraction_bounds [of x] by (simp_all add: F_def)
  have sx: "significand x = m" "exponent x = 971"
    using big by (simp_all add: significand_def exponent_def F_def m_def)
  have M: "0 < m * 2 ^ 52" using F by (simp add: m_def)
  have v: "real_of_int (m * 2 ^ 52) * 2 powi (971 - 51) = real_of_int m * 2 powi 972"
    by simp
  have c: "0 < m" "m < 2 ^ 53" "- 1074 \<le> (972::int)" "2 ^ 52 \<le> m \<or> (972::int) = - 1074"
    using F by (simp_all add: m_def)
  have ov: "2047 * 2 ^ 52 \<le> (972 + 1074) * 2 ^ 52 + m"
    using F by (simp add: m_def)
  show ?thesis
    using round_dyadic_exact [OF M v c, of "sign_bit x"] ov
    by (simp only: dmul_two_finite [OF fin] sx if_True)
qed

lemma dmul_two_finite_iff:
  assumes "is_finite x"
  shows "is_finite (dmul x (double_literal 20 1)) \<longleftrightarrow> biased_exponent x < 2046"
proof
  assume f: "is_finite (dmul x (double_literal 20 1))"
  show "biased_exponent x < 2046"
  proof (rule ccontr)
    assume "\<not> biased_exponent x < 2046"
    with assms have "biased_exponent x = 2046" by (simp add: is_finite_def)
    from dmul_two_overflow [OF assms this] f infinity_not_finite show False by simp
  qed
next
  assume "biased_exponent x < 2046"
  from dmul_two_exact [OF assms this] show "is_finite (dmul x (double_literal 20 1))" by simp
qed

subsection \<open>Products and sums that are doubles\<close>

lemma finite_normal_form:
  assumes "is_finite z"
  shows "0 \<le> significand z" and "significand z < 2 ^ 53" and "- 1074 \<le> exponent z"
    and "2 ^ 52 \<le> significand z \<or> exponent z = - 1074"
    and "(exponent z + 1074) * 2 ^ 52 + significand z < 2047 * 2 ^ 52"
proof -
  define E where "E = biased_exponent z"
  define F where "F = fraction z"
  have F: "0 \<le> F" "F < 2 ^ 52"
    using fraction_bounds [of z] by (simp_all add: F_def)
  have E: "0 \<le> E" "E < 2047"
    using assms biased_exponent_bounds [of z] by (simp_all add: E_def is_finite_def)
  have mag: "E * 2 ^ 52 + F < 2047 * 2 ^ 52"
  proof -
    from E(2) have "E + 1 \<le> 2047" by simp
    then have "(E + 1) * 2 ^ 52 \<le> 2047 * (2 ^ 52 :: int)"
      by (rule mult_right_mono) simp
    with F(2) show ?thesis by (simp add: algebra_simps)
  qed
  have "0 \<le> significand z \<and> significand z < 2 ^ 53 \<and> - 1074 \<le> exponent z \<and>
      (2 ^ 52 \<le> significand z \<or> exponent z = - 1074) \<and>
      (exponent z + 1074) * 2 ^ 52 + significand z < 2047 * 2 ^ 52"
  proof (cases "E = 0")
    case True
    then have "significand z = F" "exponent z = - 1074"
      by (simp_all add: significand_def exponent_def E_def F_def)
    with F show ?thesis by simp
  next
    case False
    with E have "significand z = 2 ^ 52 + F" "exponent z = E - 1075"
      by (simp_all add: significand_def exponent_def E_def F_def)
    with F E mag False show ?thesis by (simp add: algebra_simps)
  qed
  then show "0 \<le> significand z" and "significand z < 2 ^ 53" and "- 1074 \<le> exponent z"
    and "2 ^ 52 \<le> significand z \<or> exponent z = - 1074"
    and "(exponent z + 1074) * 2 ^ 52 + significand z < 2047 * 2 ^ 52"
    by simp_all
qed

lemma round_dyadic_representable:
  assumes M: "0 < M" and z: "is_finite z"
    and v: "real_of_int M * 2 powi a = real_of_int (significand z) * 2 powi exponent z"
  shows "is_finite (round_dyadic s M a)"
    and "valof (round_dyadic s M a) = (if s then - 1 else 1) * (real_of_int M * 2 powi a)"
proof -
  note nf = finite_normal_form [OF z]
  have pos: "0 < significand z"
  proof (rule ccontr)
    assume "\<not> 0 < significand z"
    with nf(1) have "significand z = 0" by simp
    with v M show False by simp
  qed
  have r: "round_dyadic s M a =
      make_double s ((exponent z + 1074) * 2 ^ 52 + significand z)"
    using round_dyadic_exact [OF M v pos nf(2,3,4), of s] nf(5) by simp
  note vm = valof_make_double [OF nf(1,2,3,5,4), of s]
  show "is_finite (round_dyadic s M a)"
    by (simp only: r vm)
  show "valof (round_dyadic s M a) = (if s then - 1 else 1) * (real_of_int M * 2 powi a)"
    by (simp only: valof_def r vm v mult.assoc)
qed

lemma significand_nonneg: "0 \<le> significand x"
  using fraction_bounds [of x] by (simp add: significand_def)

lemma valof_sign:
  "valof x = (if sign_bit x then - 1 else 1) * (real_of_int (significand x) * 2 powi exponent x)"
  by (simp add: valof_def)

lemma valof_abs: "\<bar>valof x\<bar> = real_of_int (significand x) * 2 powi exponent x"
  using significand_nonneg [of x] by (simp add: valof_def abs_mult)

lemma dmul_exact:
  assumes x: "is_finite x" and y: "is_finite y" and z: "is_finite z"
    and v: "valof z = valof x * valof y"
  shows "is_finite (dmul x y)" and "valof (dmul x y) = valof x * valof y"
proof -
  define s where "s = (sign_bit x \<noteq> sign_bit y)"
  define M where "M = significand x * significand y"
  define a where "a = exponent x + exponent y"
  have d: "dmul x y = round_dyadic s M a"
    using finite_not_special [OF x] finite_not_special [OF y]
    by (simp add: dmul_def s_def M_def a_def)
  have p: "valof x * valof y = (if s then - 1 else 1) * (real_of_int M * 2 powi a)"
    by (auto simp: valof_def s_def M_def a_def power_int_add)
  have M0: "0 \<le> M"
    using significand_nonneg [of x] significand_nonneg [of y] by (simp add: M_def)
  have "is_finite (dmul x y) \<and> valof (dmul x y) = valof x * valof y"
  proof (cases "M = 0")
    case True
    have c: "(0::int) \<le> 0" "(0::int) < 2048" "(0::int) \<le> 0" "(0::int) < 2 ^ 52"
      by simp_all
    note dn = decode_normal [OF c, of s]
    from True have "dmul x y = make_double s 0"
      by (simp add: d round_dyadic_zero)
    with dn True p show ?thesis
      by (simp add: valof_def is_finite_def significand_def)
  next
    case False
    with M0 have M: "0 < M" by simp
    have "real_of_int M * 2 powi a = \<bar>valof x * valof y\<bar>"
      using M by (simp add: p abs_mult)
    also have "\<dots> = real_of_int (significand z) * 2 powi exponent z"
      by (simp only: v [symmetric] valof_abs)
    finally have e: "real_of_int M * 2 powi a = real_of_int (significand z) * 2 powi exponent z" .
    from round_dyadic_representable [OF M z e, of s] show ?thesis
      by (simp only: d p simp_thms)
  qed
  then show "is_finite (dmul x y)" and "valof (dmul x y) = valof x * valof y"
    by simp_all
qed

lemma scaled_int_real:
  assumes "e \<le> exponent x"
  shows "real_of_int (scaled_int x e) * 2 powi e = valof x"
proof -
  have "(2::real) powi (exponent x - e + e) = 2 powi (exponent x - e) * 2 powi e"
    by (rule power_int_add) simp
  then have "(2::real) powi exponent x = 2 ^ nat (exponent x - e) * 2 powi e"
    using assms by (simp add: power_int_def)
  then show ?thesis
    by (simp add: scaled_int_def valof_def)
qed

lemma dadd_exact:
  assumes x: "is_finite x" and y: "is_finite y" and z: "is_finite z"
    and v: "valof z = valof x + valof y"
  shows "is_finite (dadd x y)" and "valof (dadd x y) = valof x + valof y"
proof -
  define e where "e = min (exponent x) (exponent y)"
  define w where "w = scaled_int x e + scaled_int y e"
  have d: "dadd x y = (if w = 0 then make_double (sign_bit x \<and> sign_bit y) 0
      else round_dyadic (w < 0) \<bar>w\<bar> e)"
    using finite_not_special [OF x] finite_not_special [OF y]
    by (simp add: dadd_def Let_def e_def w_def)
  have p: "valof x + valof y = real_of_int w * 2 powi e"
    using scaled_int_real [of e x] scaled_int_real [of e y]
    by (simp add: w_def e_def algebra_simps)
  have "is_finite (dadd x y) \<and> valof (dadd x y) = valof x + valof y"
  proof (cases "w = 0")
    case True
    have c: "(0::int) \<le> 0" "(0::int) < 2048" "(0::int) \<le> 0" "(0::int) < 2 ^ 52"
      by simp_all
    note dn = decode_normal [OF c, of "sign_bit x \<and> sign_bit y"]
    from True dn p show ?thesis
      by (simp add: d valof_def is_finite_def significand_def)
  next
    case False
    then have W: "0 < \<bar>w\<bar>" by simp
    have "real_of_int \<bar>w\<bar> * 2 powi e = \<bar>valof x + valof y\<bar>"
      by (simp add: p abs_mult)
    also have "\<dots> = real_of_int (significand z) * 2 powi exponent z"
      by (simp only: v [symmetric] valof_abs)
    finally have eq: "real_of_int \<bar>w\<bar> * 2 powi e = real_of_int (significand z) * 2 powi exponent z" .
    have sg: "(if w < 0 then - 1 else 1) * (real_of_int \<bar>w\<bar> * 2 powi e) = real_of_int w * 2 powi e"
      by simp
    from round_dyadic_representable [OF W z eq, of "w < 0"] False show ?thesis
      by (simp only: d p sg if_False simp_thms)
  qed
  then show "is_finite (dadd x y)" and "valof (dadd x y) = valof x + valof y"
    by simp_all
qed

section \<open>What the operations write and log\<close>

lemma calls_to_cout [simp]: "calls (to_cout fs w) = calls w"
  by (simp add: to_cout_def)

lemma rideDetails_cout:
  "cout (rideDetails r w) =
     (cout w)\<lparr>buffer := buffer (cout w) @ details_text r, fixed_flag := True, precision := 2\<rparr>"
  by (simp add: rideDetails_def to_cout_def put_string_def endl_def std_fixed_def
      setprecision_def put_double_def details_text_def)

lemma rideDetails_calls [simp]: "calls (rideDetails r w) = calls w"
  by (simp add: rideDetails_def)

lemma rideDetails_effects:
  "effects (rideDetails r w) =
     effects w @
     [Wrote (''Ride ID: '' @ rideID r @ ''\<newline>''),
      Wrote (''  Pickup: '' @ pickupLocation r @ ''\<newline>''),
      Wrote (''  Dropoff: '' @ dropoffLocation r @ ''\<newline>''),
      Wrote (''  Distance: '' @ format_fixed 1 (distance r) @ '' miles\<newline>''),
      Wrote (''  Fare: $'' @ format_fixed 2 (fare r) @ ''\<newline>'')]"
  by (simp add: rideDetails_def to_cout_def written_def put_string_def endl_def std_fixed_def
      setprecision_def put_double_def)

lemma rideDetails_buffer:
  "buffer (cout (rideDetails r w)) = buffer (cout w) @ details_text r"
  by (simp add: rideDetails_cout)

lemma print_rides_buffer:
  "buffer (cout (print_rides rides w)) = buffer (cout w) @ concat (map block_text rides)"
  by (induction rides arbitrary: w)
     (simp_all add: Let_def rideDetails_cout to_cout_def put_string_def endl_def block_text_def)

lemma print_rides_calls [simp]: "calls (print_rides rides w) = calls w"
  by (induction rides arbitrary: w) simp_all

lemma getDriverInfo_buffer:
  "buffer (cout (getDriverInfo d w)) =
     buffer (cout w) @ driver_header d @
     (if assignedRides d = [] then ''  No rides completed yet.\<newline>''
      else concat (map block_text (assignedRides d)))"
  by (simp add: getDriverInfo_def print_rides_buffer to_cout_def put_string_def endl_def
      std_fixed_def setprecision_def put_double_def put_size_def driver_header_def)

lemma getDriverInfo_calls [simp]: "calls (getDriverInfo d w) = calls w"
  by (simp add: getDriverInfo_def Let_def)

lemma viewRides_buffer:
  "buffer (cout (viewRides r w)) =
     buffer (cout w) @ rider_header r @
     (if requestedRides r = [] then ''  No rides requested yet.\<newline>''
      else concat (map block_text (requestedRides r)))"
  by (simp add: viewRides_def print_rides_buffer to_cout_def put_string_def endl_def
      rider_header_def)

lemma viewRides_calls [simp]: "calls (viewRides r w) = calls w"
  by (simp add: viewRides_def Let_def)

lemma requestRide_eq:
  "requestRide ride this w =
     (this\<lparr>requestedRides := requestedRides this @ [ride]\<rparr>,
      (rideDetails (Ride_of ride)
        (to_cout [put_string ''\<newline>'', put_string (Rider.name this),
                  put_string '' requested a ride.'', endl] w))
      \<lparr>effects :=
         effects (rideDetails (Ride_of ride)
           (to_cout [put_string ''\<newline>'', put_string (Rider.name this),
                     put_string '' requested a ride.'', endl] w)) @
         [Stored (rideID (Ride_of ride))]\<rparr>)"
  by (simp add: requestRide_def requestRide_notify_def requestRide_show_def
      requestRide_store_def)

lemma fold_addRide: "assignedRides (fold addRide rides d) = assignedRides d @ rides"
  by (induction rides arbitrary: d) (simp_all add: addRide_def)

lemma fold_requestRide:
  "requestedRides (fst (fold (\<lambda>ride (this, w). requestRide ride this w) rides (r, w))) =
     requestedRides r @ rides"
  by (induction rides arbitrary: r w) (simp_all add: requestRide_eq)

lemma StandardRide_ctor_eq:
  "StandardRide_ctor i pickup dropoff d w =
     (StandardRide \<lparr>rideID = i, pickupLocation = pickup, dropoffLocation = dropoff,
                    distance = d, fare = dmul d (double_literal 20 1)\<rparr>,
      w\<lparr>calls := calls w @ [CalculateFare i]\<rparr>)"
  by (simp add: StandardRide_ctor_def Ride_ctor_def StandardRide_calculateFare_def
      StandardRide_RATE_PER_MILE_def)

lemma PremiumRide_ctor_eq:
  "PremiumRide_ctor i pickup dropoff d w =
     (PremiumRide \<lparr>rideID = i, pickupLocation = pickup, dropoffLocation = dropoff,
                   distance = d,
                   fare = dadd (dmul d (double_literal 35 1)) (double_literal 50 1)\<rparr>,
      w\<lparr>calls := calls w @ [CalculateFare i]\<rparr>)"
  by (simp add: PremiumRide_ctor_def Ride_ctor_def PremiumRide_calculateFare_def
      PremiumRide_RATE_PER_MILE_def PremiumRide_PREMIUM_SURCHARGE_def)

lemma calculateFare_Standard:
  "calculateFare (StandardRide this) w =
     (StandardRide (this\<lparr>fare := dmul (distance this) (double_literal 20 1)\<rparr>),
      w\<lparr>calls := calls w @ [CalculateFare (rideID this)]\<rparr>)"
  by (simp add: StandardRide_calculateFare_def StandardRide_RATE_PER_MILE_def)

lemma calculateFare_Premium:
  "calculateFare (PremiumRide this) w =
     (PremiumRide (this\<lparr>fare := dadd (dmul (distance this) (double_literal 35 1))
                                       (double_literal 50 1)\<rparr>),
      w\<lparr>calls := calls w @ [CalculateFare (rideID this)]\<rparr>)"
  by (simp add: PremiumRide_calculateFare_def PremiumRide_RATE_PER_MILE_def
      PremiumRide_PREMIUM_SURCHARGE_def)

declare calculateFare.simps [simp del]

lemma calculateFare_snd:
  "snd (calculateFare ride w) = w\<lparr>calls := calls w @ [CalculateFare (rideID (Ride_of ride))]\<rparr>"
  by (cases ride) (simp_all add: calculateFare_Standard calculateFare_Premium)

lemma calculateFare_fst_world: "fst (calculateFare ride w) = fst (calculateFare ride w')"
  by (cases ride) (simp_all add: calculateFare_Standard calculateFare_Premium)

lemma calculateFare_rideID [simp]:
  "rideID (Ride_of (fst (calculateFare ride w))) = rideID (Ride_of ride)"
  by (cases ride) (simp_all add: calculateFare_Standard calculateFare_Premium)

lemma calculateFare_idem:
  "fst (calculateFare (fst (calculateFare ride w)) w') = fst (calculateFare ride w)"
  by (cases ride) (simp_all add: calculateFare_Standard calculateFare_Premium)

lemma demonstrate_loop_fst:
  "fst (demonstrate_loop rides w) = map (\<lambda>ride. fst (calculateFare ride w0)) rides"
proof (induction rides arbitrary: w)
  case Nil
  show ?case by simp
next
  case (Cons ride rides)
  have "fst (calculateFare ride w) = fst (calculateFare ride w0)"
    by (rule calculateFare_fst_world)
  with Cons show ?case
    by (simp add: split_def Let_def)
qed

lemma demonstrate_loop_calls:
  "calls (snd (demonstrate_loop rides w)) =
     calls w @ map (\<lambda>ride. CalculateFare (rideID (Ride_of ride))) rides"
  by (induction rides arbitrary: w) (simp_all add: split_def Let_def calculateFare_snd)

lemma demonstration_calls:
  "calls (snd (demonstration w)) =
     calls w @ map CalculateFare
       [''S001'', ''P002'', ''S003'', ''S001-C'', ''P002-C'', ''S003-C'',
        ''SysR01'', ''SysR02'', ''SysR03'', ''SysR04'',
        ''SysR01'', ''SysR02'', ''SysR03'', ''SysR04'']"
  by (simp add: demonstration_def StandardRide_ctor_eq PremiumRide_ctor_eq requestRide_eq
      calculateFare_snd split_def Let_def)

lemma demonstration_systemRides:
  "systemRides (fst (demonstration w)) =
     [fst (StandardRide_ctor ''SysR01'' ''Library'' ''Cafe'' (double_literal 70 1) w1),
      fst (PremiumRide_ctor ''SysR02'' ''Mall'' ''Home'' (double_literal 45 1) w2),
      fst (StandardRide_ctor ''SysR03'' ''Gym'' ''Cafe'' (double_literal 20 1) w3),
      fst (PremiumRide_ctor ''SysR04'' ''School'' ''Park'' (double_literal 120 1) w4)]"
  by (simp add: demonstration_def StandardRide_ctor_eq PremiumRide_ctor_eq requestRide_eq
      demonstrate_loop_fst [of _ _ w] calculateFare_Standard calculateFare_Premium
      split_def Let_def del: demonstrate_loop.simps One_nat_def)

section \<open>Texts with a fixed number of fractional digits\<close>

lemma digit_chars: "list_all (\<lambda>d. is_digit (digit_char d)) [0, 1, 2, 3, 4, 5, 6, 7, 8, 9]"
  by code_simp

lemma digit_char_is_digit:
  assumes "0 \<le> d" "d < 10"
  shows "is_digit (digit_char d)"
proof -
  from assms have "d \<in> set [0, 1, 2, 3, 4, 5, 6, 7, 8, 9]"
    by simp presburger
  with digit_chars show ?thesis
    unfolding list_all_iff by blast
qed

lemma not_digit [simp]:
  "\<not> is_digit (CHR ''.'')" "\<not> is_digit (CHR ''-'')" "is_digit (CHR ''0'')"
  by (simp_all add: is_digit_def)

lemma decimal_digits_digits: "0 \<le> n \<Longrightarrow> list_all is_digit (decimal_digits n)"
proof (induction n rule: decimal_digits.induct)
  case (1 n)
  show ?case
  proof (cases "n < 10")
    case True
    with 1(2) show ?thesis
      by (subst decimal_digits.simps) (simp add: digit_char_is_digit)
  next
    case False
    with 1 have "list_all is_digit (decimal_digits (n div 10))" by simp
    moreover have "is_digit (digit_char (n mod 10))"
      by (rule digit_char_is_digit) simp_all
    ultimately show ?thesis using False
      by (subst decimal_digits.simps) simp
  qed
qed

lemma decimal_digits_nonempty [simp]: "decimal_digits n \<noteq> []"
  by (subst decimal_digits.simps) simp

lemma decimal_digits_length: "0 < p \<Longrightarrow> n < 10 ^ p \<Longrightarrow> length (decimal_digits n) \<le> p"
proof (induction n arbitrary: p rule: decimal_digits.induct)
  case (1 n)
  show ?case
  proof (cases "n < 10")
    case True
    with 1(2) show ?thesis
      by (subst decimal_digits.simps) simp
  next
    case False
    from False 1(3) have "1 < p"
      by (cases "p = 1") (use 1(2) in auto)
    then obtain k where k: "p = Suc k" "0 < k"
      by (cases p) auto
    define m where "m = (10::int) ^ k"
    from 1(3) k have "n < 10 * m" by (simp add: m_def)
    then have "n div 10 < m" by presburger
    then have "n div 10 < 10 ^ k" by (simp add: m_def)
    with 1(1) False k have "length (decimal_digits (n div 10)) \<le> k" by simp
    with k False show ?thesis
      by (subst decimal_digits.simps) simp
  qed
qed

lemma zero_pad_digits:
  "list_all is_digit ds \<Longrightarrow> list_all is_digit (zero_pad p ds)"
  by (auto simp: zero_pad_def list_all_iff)

lemma zero_pad_length: "length ds \<le> p \<Longrightarrow> length (zero_pad p ds) = p"
  by (simp add: zero_pad_def)

lemma round_half_even_nonneg: "0 \<le> n \<Longrightarrow> 0 < d \<Longrightarrow> 0 \<le> round_half_even n d"
  by (simp add: round_half_even_def Let_def pos_imp_zdiv_nonneg_iff)

lemma round_scaled_nonneg: "0 \<le> n \<Longrightarrow> 0 < d \<Longrightarrow> 0 \<le> round_scaled n d k"
  by (simp add: round_scaled_def round_half_even_nonneg)

lemma takeWhile_digits:
  "list_all is_digit ip \<Longrightarrow> takeWhile is_digit (ip @ CHR ''.'' # fp) = ip"
  by (simp add: list_all_iff)

lemma dropWhile_digits:
  "list_all is_digit ip \<Longrightarrow> dropWhile is_digit (ip @ CHR ''.'' # fp) = CHR ''.'' # fp"
  by (simp add: list_all_iff)

lemma has_fraction_digits_intro:
  assumes "list_all is_digit ip" "ip \<noteq> []" "list_all is_digit fp" "length fp = p"
  shows "has_fraction_digits p (ip @ CHR ''.'' # fp)"
    and "has_fraction_digits p (CHR ''-'' # ip @ CHR ''.'' # fp)"
proof -
  from assms(1,2) have "unsigned_part (ip @ CHR ''.'' # fp) = ip @ CHR ''.'' # fp"
    by (cases ip) (auto simp: unsigned_part_def)
  with assms show "has_fraction_digits p (ip @ CHR ''.'' # fp)"
    by (simp add: has_fraction_digits_def takeWhile_digits dropWhile_digits)
  from assms show "has_fraction_digits p (CHR ''-'' # ip @ CHR ''.'' # fp)"
    by (simp add: has_fraction_digits_def unsigned_part_def takeWhile_digits dropWhile_digits)
qed

lemma numerator_nonneg: "0 \<le> numerator x"
  by (simp add: numerator_def significand_nonneg)

lemma denominator_pos: "0 < denominator x"
  by (simp add: denominator_def)

lemma fixed_text_form:
  assumes "0 \<le> n" "0 < d" "0 < p"
  shows "\<exists>ip fp. fixed_text p n d = ip @ CHR ''.'' # fp \<and> list_all is_digit ip \<and> ip \<noteq> [] \<and>
           list_all is_digit fp \<and> length fp = p"
proof -
  define r where "r = round_scaled n d (int p)"
  have r: "0 \<le> r" unfolding r_def using assms by (simp add: round_scaled_nonneg)
  have ip: "list_all is_digit (decimal_digits (r div 10 ^ p))"
    using r by (simp add: decimal_digits_digits pos_imp_zdiv_nonneg_iff)
  have m: "0 \<le> r mod 10 ^ p" "r mod 10 ^ p < 10 ^ p" by simp_all
  have fp: "list_all is_digit (zero_pad p (decimal_digits (r mod 10 ^ p)))"
    using m by (simp add: zero_pad_digits decimal_digits_digits)
  have len: "length (zero_pad p (decimal_digits (r mod 10 ^ p))) = p"
    using m assms(3) by (simp add: zero_pad_length decimal_digits_length)
  have eq: "fixed_text p n d =
      decimal_digits (r div 10 ^ p) @ CHR ''.'' # zero_pad p (decimal_digits (r mod 10 ^ p))"
    using assms(3) by (simp add: fixed_text_def r_def Let_def)
  show ?thesis
    unfolding eq
    by (rule exI [of _ "decimal_digits (r div 10 ^ p)"],
        rule exI [of _ "zero_pad p (decimal_digits (r mod 10 ^ p))"])
       (simp add: ip fp len)
qed

lemma format_fixed_fraction_digits:
  assumes "is_finite x" "0 < p"
  shows "has_fraction_digits p (format_fixed p x)"
proof -
  from fixed_text_form [OF numerator_nonneg denominator_pos assms(2), of x]
  obtain ip fp where t: "fixed_text p (numerator x) (denominator x) = ip @ CHR ''.'' # fp"
    and d: "list_all is_digit ip" "ip \<noteq> []" "list_all is_digit fp" "length fp = p"
    by blast
  from has_fraction_digits_intro [OF d] t assms(1) show ?thesis
    by (simp add: format_fixed_def sign_text_def)
qed

section \<open>The values of the demonstration\<close>

lemma fare_S001: "dmul (double_literal 105 1) (double_literal 20 1) = double_literal 2100 2"
  by code_simp

lemma fare_P002:
  "dadd (dmul (double_literal 250 1) (double_literal 35 1)) (double_literal 50 1) =
     double_literal 9250 2"
  by code_simp

lemma rate_values:
  "is_finite (double_literal 35 1)" "valof (double_literal 35 1) = 7 / 2"
  "is_finite (double_literal 50 1)" "valof (double_literal 50 1) = 5"
proof -
  have "is_finite (double_literal 35 1) \<and> sign_bit (double_literal 35 1) = False \<and>
      significand (double_literal 35 1) = 7 * 2 ^ 50 \<and> exponent (double_literal 35 1) = - 51"
    by code_simp
  then show "is_finite (double_literal 35 1)" "valof (double_literal 35 1) = 7 / 2"
    by (simp_all add: valof_def del: One_nat_def)
  have "is_finite (double_literal 50 1) \<and> sign_bit (double_literal 50 1) = False \<and>
      significand (double_literal 50 1) = 5 * 2 ^ 50 \<and> exponent (double_literal 50 1) = - 50"
    by code_simp
  then show "is_finite (double_literal 50 1)" "valof (double_literal 50 1) = 5"
    by (simp_all add: valof_def del: One_nat_def)
qed

lemma finite_P002:
  "is_finite (double_literal 250 1)" "is_finite (double_literal 875 1)"
  "is_finite (double_literal 9250 2)" "valof (double_literal 875 1) = 175 / 2"
proof -
  show "is_finite (double_literal 250 1)" "is_finite (double_literal 875 1)"
    "is_finite (double_literal 9250 2)"
    by code_simp+
  have "sign_bit (double_literal 875 1) = False \<and>
      significand (double_literal 875 1) = 175 * 2 ^ 45 \<and> exponent (double_literal 875 1) = - 46"
    by code_simp
  then show "valof (double_literal 875 1) = 175 / 2"
    by (simp add: valof_def del: One_nat_def)
qed

lemma nan_operands:
  "dmul 0xFFF8000000000000 (double_literal 20 1) = 0xFFF8000000000000"
  "dmul 0x7FF0000000000001 (double_literal 20 1) = 0x7FF8000000000001"
  "dadd (dmul 0x7FF0000000000001 (double_literal 35 1)) (double_literal 50 1) =
     0x7FF8000000000001"
  "dadd (dmul 0xFFF8000000000000 (double_literal 35 1)) (double_literal 50 1) =
     0xFFF8000000000000"
  by code_simp+

lemma text_10_5: "format_fixed 1 (double_literal 105 1) = ''10.5''"
  by code_simp

lemma text_21_00: "format_fixed 2 (double_literal 2100 2) = ''21.00''"
  by code_simp

lemma text_25_0: "format_fixed 1 (double_literal 250 1) = ''25.0''"
  by code_simp

lemma text_92_50: "format_fixed 2 (double_literal 9250 2) = ''92.50''"
  by code_simp

lemma text_4_8: "format_fixed 1 (double_literal 48 1) = ''4.8''"
  by code_simp

lemma text_sizes: "decimal_digits 0 = ''0''" "decimal_digits 2 = ''2''"
  by code_simp+

lemma finite_S001:
  "is_finite (double_literal 105 1)" "is_finite (double_literal 2100 2)"
  by code_simp+

lemma valof_values:
  "valof (double_literal 105 1) = 21 / 2" "valof (double_literal 2100 2) = 21"
  "valof (double_literal 250 1) = 25" "valof (double_literal 9250 2) = 185 / 2"
proof -
  have "sign_bit (double_literal 105 1) = False \<and> significand (double_literal 105 1) = 21 * 2 ^ 48 \<and>
      exponent (double_literal 105 1) = - 49"
    by code_simp
  then show "valof (double_literal 105 1) = 21 / 2"
    by (simp add: valof_def del: One_nat_def)
  have "sign_bit (double_literal 2100 2) = False \<and> significand (double_literal 2100 2) = 21 * 2 ^ 48 \<and>
      exponent (double_literal 2100 2) = - 48"
    by code_simp
  then show "valof (double_literal 2100 2) = 21"
    by (simp add: valof_def del: One_nat_def)
  have "sign_bit (double_literal 250 1) = False \<and> significand (double_literal 250 1) = 25 * 2 ^ 48 \<and>
      exponent (double_literal 250 1) = - 48"
    by code_simp
  then show "valof (double_literal 250 1) = 25"
    by (simp add: valof_def del: One_nat_def)
  have "sign_bit (double_literal 9250 2) = False \<and> significand (double_literal 9250 2) = 185 * 2 ^ 45 \<and>
      exponent (double_literal 9250 2) = - 46"
    by code_simp
  then show "valof (double_literal 9250 2) = 185 / 2"
    by (simp add: valof_def del: One_nat_def)
qed

section \<open>Fares\<close>

text \<open>
  C1. For every id, pickup, dropoff and distance \<open>d\<close>, the constructor of
  \<^verbatim>\<open>StandardRide\<close> yields an object whose stored fare is \<open>d\<close> times \<^verbatim>\<open>2.0\<close>, the
  product of doubles, and \<^verbatim>\<open>getFare\<close> returns that value. Where \<open>d\<close> is finite and
  the product is not an infinity, the fare denotes exactly twice the number that \<open>d\<close>
  denotes: this product is never rounded.
\<close>

theorem StandardRide_fare:
  "fst (StandardRide_ctor i pickup dropoff d w) =
     StandardRide \<lparr>rideID = i, pickupLocation = pickup, dropoffLocation = dropoff,
                   distance = d, fare = dmul d (double_literal 20 1)\<rparr> \<and>
   getFare (Ride_of (fst (StandardRide_ctor i pickup dropoff d w))) = dmul d (double_literal 20 1) \<and>
   (is_finite d \<and> is_finite (dmul d (double_literal 20 1)) \<longrightarrow>
      valof (dmul d (double_literal 20 1)) = 2 * valof d)"
proof -
  have "valof (dmul d (double_literal 20 1)) = 2 * valof d"
    if "is_finite d" and "is_finite (dmul d (double_literal 20 1))"
    using dmul_two_exact [OF that(1)] dmul_two_finite_iff [OF that(1)] that(2) by blast
  then show ?thesis
    by (simp add: StandardRide_ctor_eq getFare_def del: One_nat_def)
qed

theorem StandardRide_fare_witness:
  "is_finite (double_literal 105 1) \<and>
   is_finite (dmul (double_literal 105 1) (double_literal 20 1)) \<and>
   getFare (Ride_of (fst (StandardRide_ctor ''S001'' ''Downtown'' ''Suburb A''
      (double_literal 105 1) initial_world))) = dmul (double_literal 105 1) (double_literal 20 1) \<and>
   dmul (double_literal 105 1) (double_literal 20 1) = double_literal 2100 2 \<and>
   valof (dmul (double_literal 105 1) (double_literal 20 1)) = 2 * valof (double_literal 105 1) \<and>
   valof (double_literal 105 1) = 21 / 2"
  using StandardRide_fare
    [of "''S001''" "''Downtown''" "''Suburb A''" "double_literal 105 1" initial_world]
  by (simp add: StandardRide_ctor_eq getFare_def fare_S001 finite_S001 valof_values
      del: One_nat_def)

text \<open>
  C2. For every id, pickup, dropoff and distance \<open>d\<close>, the constructor of
  \<^verbatim>\<open>PremiumRide\<close> yields an object whose stored fare is \<open>d\<close> times \<^verbatim>\<open>3.5\<close> plus
  \<^verbatim>\<open>5.0\<close>, product and sum of doubles, and \<^verbatim>\<open>getFare\<close> returns that value. Where
  \<open>d\<close> is finite and the numbers \<open>3.5 d\<close> and \<open>3.5 d + 5\<close> are themselves doubles
  (\<open>p\<close> and \<open>q\<close>), neither operation rounds, and the fare denotes exactly \<open>3.5 d + 5\<close>.
\<close>

theorem PremiumRide_fare:
  "fst (PremiumRide_ctor i pickup dropoff d w) =
     PremiumRide \<lparr>rideID = i, pickupLocation = pickup, dropoffLocation = dropoff,
                  distance = d,
                  fare = dadd (dmul d (double_literal 35 1)) (double_literal 50 1)\<rparr> \<and>
   getFare (Ride_of (fst (PremiumRide_ctor i pickup dropoff d w))) =
     dadd (dmul d (double_literal 35 1)) (double_literal 50 1) \<and>
   (is_finite d \<and> is_finite p \<and> valof p = 7 / 2 * valof d \<and>
    is_finite q \<and> valof q = 7 / 2 * valof d + 5 \<longrightarrow>
      valof (dadd (dmul d (double_literal 35 1)) (double_literal 50 1)) = 7 / 2 * valof d + 5)"
proof -
  have "valof (dadd (dmul d (double_literal 35 1)) (double_literal 50 1)) = 7 / 2 * valof d + 5"
    if d: "is_finite d" and p: "is_finite p" "valof p = 7 / 2 * valof d"
      and q: "is_finite q" "valof q = 7 / 2 * valof d + 5"
  proof -
    have "valof p = valof d * valof (double_literal 35 1)"
      by (simp add: p rate_values del: One_nat_def)
    note m = dmul_exact [OF d rate_values(1) p(1) this]
    have "valof q = valof (dmul d (double_literal 35 1)) + valof (double_literal 50 1)"
      by (simp add: q m rate_values del: One_nat_def)
    from dadd_exact [OF m(1) rate_values(3) q(1) this] show ?thesis
      by (simp add: m rate_values del: One_nat_def)
  qed
  then show ?thesis
    by (simp add: PremiumRide_ctor_eq getFare_def del: One_nat_def)
qed

theorem PremiumRide_fare_witness:
  "is_finite (double_literal 250 1) \<and>
   is_finite (double_literal 875 1) \<and>
   valof (double_literal 875 1) = 7 / 2 * valof (double_literal 250 1) \<and>
   is_finite (double_literal 9250 2) \<and>
   valof (double_literal 9250 2) = 7 / 2 * valof (double_literal 250 1) + 5 \<and>
   getFare (Ride_of (fst (PremiumRide_ctor ''P002'' ''Airport'' ''City Center''
      (double_literal 250 1) initial_world))) =
     dadd (dmul (double_literal 250 1) (double_literal 35 1)) (double_literal 50 1) \<and>
   valof (dadd (dmul (double_literal 250 1) (double_literal 35 1)) (double_literal 50 1)) =
     7 / 2 * valof (double_literal 250 1) + 5 \<and>
   valof (double_literal 250 1) = 25"
  using PremiumRide_fare
    [of "''P002''" "''Airport''" "''City Center''" "double_literal 250 1" initial_world
        "double_literal 875 1" "double_literal 9250 2"]
  by (simp add: PremiumRide_ctor_eq getFare_def finite_P002 valof_values del: One_nat_def)

text \<open>
  C9. \<^verbatim>\<open>calculateFare\<close> changes only the fare: the object after the call is the object
  before it with a new fare, so id, pickup, dropoff and distance are the same, and
  \<^verbatim>\<open>std::cout\<close> is as before: nothing is written.
\<close>

theorem calculateFare_frame:
  "Ride_of (fst (calculateFare ride w)) =
     (Ride_of ride)\<lparr>fare := fare (Ride_of (fst (calculateFare ride w)))\<rparr> \<and>
   rideID (Ride_of (fst (calculateFare ride w))) = rideID (Ride_of ride) \<and>
   pickupLocation (Ride_of (fst (calculateFare ride w))) = pickupLocation (Ride_of ride) \<and>
   dropoffLocation (Ride_of (fst (calculateFare ride w))) = dropoffLocation (Ride_of ride) \<and>
   distance (Ride_of (fst (calculateFare ride w))) = distance (Ride_of ride) \<and>
   cout (snd (calculateFare ride w)) = cout w"
  by (cases ride) (simp_all add: calculateFare_Standard calculateFare_Premium)

text \<open>
  C10. \<^verbatim>\<open>calculateFare\<close> is idempotent for both classes: on an object that a
  constructor has built, and on any object it has run on before, another call leaves the
  whole object as it is. So the loop of the demonstration returns unchanged every ride
  whose fare has been computed, and \<^verbatim>\<open>systemRides\<close> holds at the end of the
  demonstration the four objects as their constructors built them.
\<close>

theorem calculateFare_idempotent:
  "fst (calculateFare (fst (StandardRide_ctor i pickup dropoff d w)) w') =
     fst (StandardRide_ctor i pickup dropoff d w) \<and>
   fst (calculateFare (fst (PremiumRide_ctor i pickup dropoff d w)) w') =
     fst (PremiumRide_ctor i pickup dropoff d w) \<and>
   fst (calculateFare (fst (calculateFare ride w)) w') = fst (calculateFare ride w) \<and>
   fst (demonstrate_loop (map (\<lambda>ride. fst (calculateFare ride w)) rides) w') =
     map (\<lambda>ride. fst (calculateFare ride w)) rides \<and>
   systemRides (fst (demonstration w)) =
     [fst (StandardRide_ctor ''SysR01'' ''Library'' ''Cafe'' (double_literal 70 1) w1),
      fst (PremiumRide_ctor ''SysR02'' ''Mall'' ''Home'' (double_literal 45 1) w2),
      fst (StandardRide_ctor ''SysR03'' ''Gym'' ''Cafe'' (double_literal 20 1) w3),
      fst (PremiumRide_ctor ''SysR04'' ''School'' ''Park'' (double_literal 120 1) w4)]"
proof -
  have "fst (demonstrate_loop (map (\<lambda>ride. fst (calculateFare ride w)) rides) w') =
      map (\<lambda>ride. fst (calculateFare ride w')) (map (\<lambda>ride. fst (calculateFare ride w)) rides)"
    by (rule demonstrate_loop_fst)
  also have "\<dots> = map (\<lambda>ride. fst (calculateFare ride w)) rides"
    by (simp add: calculateFare_idem)
  finally have loop: "fst (demonstrate_loop (map (\<lambda>ride. fst (calculateFare ride w)) rides) w') =
      map (\<lambda>ride. fst (calculateFare ride w)) rides" .
  have ctors: "fst (calculateFare (fst (StandardRide_ctor i pickup dropoff d w)) w') =
      fst (StandardRide_ctor i pickup dropoff d w)"
    "fst (calculateFare (fst (PremiumRide_ctor i pickup dropoff d w)) w') =
      fst (PremiumRide_ctor i pickup dropoff d w)"
    by (simp_all add: StandardRide_ctor_eq PremiumRide_ctor_eq calculateFare_Standard
        calculateFare_Premium)
  show ?thesis
    by (intro conjI ctors loop calculateFare_idem demonstration_systemRides)
qed

section \<open>Invocations of \<open>calculateFare\<close>\<close>

text \<open>
  C3, as the code has it. Each constructor is the base-class initialisation followed at
  once by one call of \<^verbatim>\<open>calculateFare\<close>, its only call. In the demonstration the six
  rides handed to the rider and to the driver have \<^verbatim>\<open>calculateFare\<close> run once, at
  construction; the four rides of \<^verbatim>\<open>systemRides\<close> have it run twice: at construction,
  and once more in the final loop.
\<close>

theorem calculateFare_invocations:
  "StandardRide_ctor i pickup dropoff d w =
     calculateFare (StandardRide (Ride_ctor i pickup dropoff d)) w \<and>
   PremiumRide_ctor i pickup dropoff d w =
     calculateFare (PremiumRide (Ride_ctor i pickup dropoff d)) w \<and>
   calls (snd (StandardRide_ctor i pickup dropoff d w)) = calls w @ [CalculateFare i] \<and>
   calls (snd (PremiumRide_ctor i pickup dropoff d w)) = calls w @ [CalculateFare i] \<and>
   calls (demonstrateSystemFunctionality w) =
     calls w @ map CalculateFare
       [''S001'', ''P002'', ''S003'', ''S001-C'', ''P002-C'', ''S003-C'',
        ''SysR01'', ''SysR02'', ''SysR03'', ''SysR04'',
        ''SysR01'', ''SysR02'', ''SysR03'', ''SysR04''] \<and>
   invocations ''S001'' (demonstrateSystemFunctionality initial_world) = 1 \<and>
   invocations ''P002'' (demonstrateSystemFunctionality initial_world) = 1 \<and>
   invocations ''S003'' (demonstrateSystemFunctionality initial_world) = 1 \<and>
   invocations ''S001-C'' (demonstrateSystemFunctionality initial_world) = 1 \<and>
   invocations ''P002-C'' (demonstrateSystemFunctionality initial_world) = 1 \<and>
   invocations ''S003-C'' (demonstrateSystemFunctionality initial_world) = 1 \<and>
   invocations ''SysR01'' (demonstrateSystemFunctionality initial_world) = 2 \<and>
   invocations ''SysR02'' (demonstrateSystemFunctionality initial_world) = 2 \<and>
   invocations ''SysR03'' (demonstrateSystemFunctionality initial_world) = 2 \<and>
   invocations ''SysR04'' (demonstrateSystemFunctionality initial_world) = 2"
  by (simp add: StandardRide_ctor_eq PremiumRide_ctor_eq calculateFare_Standard
      calculateFare_Premium Ride_ctor_def demonstrateSystemFunctionality_def
      demonstration_calls invocations_def initial_world_def)

text \<open>
  C3 as stated fails: in the run of the program, \<^verbatim>\<open>calculateFare\<close> is invoked twice,
  not once, on the ride \<^verbatim>\<open>SysR01\<close>.
\<close>

theorem calculateFare_once_counterexample:
  "invocations ''SysR01'' (snd (main initial_world)) = 2 \<and>
   invocations ''SysR01'' (snd (main initial_world)) \<noteq> 1"
  by (simp add: main_def demonstrateSystemFunctionality_def demonstration_calls
      invocations_def initial_world_def)

section \<open>Histories\<close>

text \<open>
  C4. \<^verbatim>\<open>requestRide\<close> performs its side effects in this order: it writes the
  notification that names the rider, then the five lines of the ride's details, and only
  then appends the ride to \<^verbatim>\<open>requestedRides\<close>; the store is the last effect, after
  every line of the details. The two printing statements leave the rider as it is, and the
  third statement is the one that appends the ride.
\<close>

theorem requestRide_order:
  "effects (snd (requestRide ride this w)) =
     effects w @
     [Wrote (''\<newline>'' @ Rider.name this @ '' requested a ride.\<newline>''),
      Wrote (''Ride ID: '' @ rideID (Ride_of ride) @ ''\<newline>''),
      Wrote (''  Pickup: '' @ pickupLocation (Ride_of ride) @ ''\<newline>''),
      Wrote (''  Dropoff: '' @ dropoffLocation (Ride_of ride) @ ''\<newline>''),
      Wrote (''  Distance: '' @ format_fixed 1 (distance (Ride_of ride)) @ '' miles\<newline>''),
      Wrote (''  Fare: $'' @ format_fixed 2 (fare (Ride_of ride)) @ ''\<newline>''),
      Stored (rideID (Ride_of ride))] \<and>
   fst (requestRide ride this w) = this\<lparr>requestedRides := requestedRides this @ [ride]\<rparr> \<and>
   buffer (cout (snd (requestRide ride this w))) =
     buffer (cout w) @ ''\<newline>'' @ Rider.name this @ '' requested a ride.\<newline>'' @
     details_text (Ride_of ride) \<and>
   fst (requestRide_notify (this, w)) = this \<and>
   fst (requestRide_show ride (this, w)) = this \<and>
   requestRide_store ride (this, w) =
     (this\<lparr>requestedRides := requestedRides this @ [ride]\<rparr>,
      w\<lparr>effects := effects w @ [Stored (rideID (Ride_of ride))]\<rparr>)"
  by (simp add: requestRide_eq requestRide_notify_def requestRide_show_def
      requestRide_store_def rideDetails_buffer rideDetails_effects to_cout_def written_def
      put_string_def endl_def)

text \<open>
  C5. \<open>N\<close> rides appended by \<^verbatim>\<open>addRide\<close> to a new driver, or by \<^verbatim>\<open>requestRide\<close> to
  a new rider, make a history of length \<open>N\<close> that holds exactly these rides in the order
  of the calls (appended to an older history, they follow it); and \<^verbatim>\<open>getDriverInfo\<close>
  and \<^verbatim>\<open>viewRides\<close> write the blocks of the rides in that order.
\<close>

theorem history_order:
  "assignedRides (fold addRide rides (Driver_ctor i n r)) = rides \<and>
   length (assignedRides (fold addRide rides (Driver_ctor i n r))) = length rides \<and>
   assignedRides (fold addRide rides d) = assignedRides d @ rides \<and>
   requestedRides (fst (fold (\<lambda>ride (this, w). requestRide ride this w) rides (Rider_ctor i n, w)))
     = rides \<and>
   length (requestedRides
     (fst (fold (\<lambda>ride (this, w). requestRide ride this w) rides (Rider_ctor i n, w))))
     = length rides \<and>
   requestedRides (fst (fold (\<lambda>ride (this, w). requestRide ride this w) rides (rd, w)))
     = requestedRides rd @ rides \<and>
   buffer (cout (getDriverInfo (fold addRide (ride # rides) (Driver_ctor i n r)) w)) =
     buffer (cout w) @ driver_header (fold addRide (ride # rides) (Driver_ctor i n r)) @
     concat (map block_text (ride # rides)) \<and>
   buffer (cout (viewRides
     (fst (fold (\<lambda>ride (this, w). requestRide ride this w) (ride # rides) (Rider_ctor i n, w))) w'))
     = buffer (cout w') @ rider_header (Rider_ctor i n) @ concat (map block_text (ride # rides))"
proof -
  have d: "assignedRides (fold addRide rides' (Driver_ctor i n r)) = rides'" for rides'
    by (simp add: fold_addRide Driver_ctor_def)
  have r: "requestedRides
      (fst (fold (\<lambda>ride (this, w). requestRide ride this w) rides' (Rider_ctor i n, w))) = rides'"
    for rides'
    by (simp only: fold_requestRide) (simp add: Rider_ctor_def)
  have h: "rider_header
      (fst (fold (\<lambda>ride (this, w). requestRide ride this w) rides' (rd', w))) = rider_header rd'"
    for rides' rd' w
    by (induction rides' arbitrary: rd' w) (simp_all add: requestRide_eq rider_header_def)
  show ?thesis
    by (simp only: d r h getDriverInfo_buffer viewRides_buffer fold_addRide fold_requestRide)
       (simp add: Driver_ctor_def Rider_ctor_def)
qed

text \<open>
  C6. A driver with no assigned rides and a rider with no requested rides are shown with
  the sentence \<^verbatim>\<open>No rides completed yet.\<close>, respectively
  \<^verbatim>\<open>No rides requested yet.\<close>, right after the header lines, and with nothing else: no
  block of a ride is written.
\<close>

theorem empty_history_sentinel:
  assumes "assignedRides d = []" and "requestedRides r = []"
  shows "buffer (cout (getDriverInfo d w)) =
           buffer (cout w) @
           ''\<newline>--- Driver Details ---\<newline>'' @
           ''Driver ID: '' @ driverID d @ ''\<newline>'' @
           ''Name: '' @ Driver.name d @ ''\<newline>'' @
           ''Rating: '' @ format_fixed 1 (rating d) @ ''/5.0\<newline>'' @
           ''Completed Rides (0):\<newline>'' @
           ''  No rides completed yet.\<newline>'' \<and>
         buffer (cout (viewRides r w)) =
           buffer (cout w) @
           ''\<newline>--- '' @ Rider.name r @ CHR 0x27 # ''s Ride History ---\<newline>'' @
           ''  No rides requested yet.\<newline>''"
  using assms
  by (simp add: getDriverInfo_buffer viewRides_buffer driver_header_def rider_header_def
      text_sizes)

theorem empty_history_sentinel_witness:
  "assignedRides (Driver_ctor ''D001'' ''Alice Smith'' (double_literal 48 1)) = [] \<and>
   requestedRides (Rider_ctor ''R001'' ''Sandesh Shrestha'') = [] \<and>
   buffer (cout (getDriverInfo (Driver_ctor ''D001'' ''Alice Smith'' (double_literal 48 1))
                   initial_world)) =
     ''\<newline>--- Driver Details ---\<newline>'' @
     ''Driver ID: D001\<newline>'' @
     ''Name: Alice Smith\<newline>'' @
     ''Rating: 4.8/5.0\<newline>'' @
     ''Completed Rides (0):\<newline>'' @
     ''  No rides completed yet.\<newline>'' \<and>
   buffer (cout (viewRides (Rider_ctor ''R001'' ''Sandesh Shrestha'') initial_world)) =
     ''\<newline>--- Sandesh Shrestha'' @ CHR 0x27 # ''s Ride History ---\<newline>'' @
     ''  No rides requested yet.\<newline>''"
  using empty_history_sentinel
    [of "Driver_ctor ''D001'' ''Alice Smith'' (double_literal 48 1)"
        "Rider_ctor ''R001'' ''Sandesh Shrestha''" initial_world]
  by (simp add: Driver_ctor_def Rider_ctor_def initial_world_def text_4_8 del: One_nat_def)

section \<open>The end-to-end scenario\<close>

text \<open>
  C7. \<^verbatim>\<open>StandardRide("S001", "Downtown", "Suburb A", 10.5)\<close> has the fare 21, written
  \<^verbatim>\<open>21.00\<close>; \<^verbatim>\<open>PremiumRide("P002", "Airport", "City Center", 25.0)\<close> has the fare
  92.5, written \<^verbatim>\<open>92.50\<close>; and a driver given these two rides, in this order, is shown
  with the header \<^verbatim>\<open>Completed Rides (2):\<close> followed by the two blocks in this order.
\<close>

theorem end_to_end_scenario:
  "getFare (Ride_of (fst (StandardRide_ctor ''S001'' ''Downtown'' ''Suburb A''
      (double_literal 105 1) w1))) = double_literal 2100 2 \<and>
   valof (double_literal 2100 2) = 21 \<and>
   format_fixed 2 (double_literal 2100 2) = ''21.00'' \<and>
   getFare (Ride_of (fst (PremiumRide_ctor ''P002'' ''Airport'' ''City Center''
      (double_literal 250 1) w2))) = double_literal 9250 2 \<and>
   valof (double_literal 9250 2) = 185 / 2 \<and>
   format_fixed 2 (double_literal 9250 2) = ''92.50'' \<and>
   buffer (cout (getDriverInfo
      (addRide (fst (PremiumRide_ctor ''P002'' ''Airport'' ''City Center''
                       (double_literal 250 1) w2))
        (addRide (fst (StandardRide_ctor ''S001'' ''Downtown'' ''Suburb A''
                         (double_literal 105 1) w1))
          (Driver_ctor i n r))) w)) =
     buffer (cout w) @
     ''\<newline>--- Driver Details ---\<newline>'' @
     ''Driver ID: '' @ i @ ''\<newline>'' @
     ''Name: '' @ n @ ''\<newline>'' @
     ''Rating: '' @ format_fixed 1 r @ ''/5.0\<newline>'' @
     ''Completed Rides (2):\<newline>'' @
     ''Ride ID: S001\<newline>'' @
     ''  Pickup: Downtown\<newline>'' @
     ''  Dropoff: Suburb A\<newline>'' @
     ''  Distance: 10.5 miles\<newline>'' @
     ''  Fare: $21.00\<newline>'' @
     ''--------------------\<newline>'' @
     ''Ride ID: P002\<newline>'' @
     ''  Pickup: Airport\<newline>'' @
     ''  Dropoff: City Center\<newline>'' @
     ''  Distance: 25.0 miles\<newline>'' @
     ''  Fare: $92.50\<newline>'' @
     ''--------------------\<newline>''"
  by (simp add: StandardRide_ctor_eq PremiumRide_ctor_eq getFare_def fare_S001 fare_P002
      text_10_5 text_21_00 text_25_0 text_92_50 text_sizes valof_values getDriverInfo_buffer
      driver_header_def block_text_def details_text_def addRide_def Driver_ctor_def
      del: One_nat_def)

section \<open>The precision of \<open>rideDetails\<close>\<close>

text \<open>
  C8, as the code has it. For every ride whose distance and fare are finite doubles,
  \<^verbatim>\<open>rideDetails\<close> writes the five lines below, where the text of the distance has
  exactly one fractional digit and the text of the fare exactly two.
\<close>

theorem rideDetails_precision:
  assumes "is_finite (distance r)" and "is_finite (fare r)"
  shows "buffer (cout (rideDetails r w)) =
           buffer (cout w) @
           ''Ride ID: '' @ rideID r @ ''\<newline>'' @
           ''  Pickup: '' @ pickupLocation r @ ''\<newline>'' @
           ''  Dropoff: '' @ dropoffLocation r @ ''\<newline>'' @
           ''  Distance: '' @ format_fixed 1 (distance r) @ '' miles\<newline>'' @
           ''  Fare: $'' @ format_fixed 2 (fare r) @ ''\<newline>'' \<and>
         has_fraction_digits 1 (format_fixed 1 (distance r)) \<and>
         has_fraction_digits 2 (format_fixed 2 (fare r))"
  using assms
  by (simp add: rideDetails_buffer details_text_def format_fixed_fraction_digits)

theorem rideDetails_precision_witness:
  "is_finite (distance (Ride_of (fst (StandardRide_ctor ''S001'' ''Downtown'' ''Suburb A''
      (double_literal 105 1) initial_world)))) \<and>
   is_finite (fare (Ride_of (fst (StandardRide_ctor ''S001'' ''Downtown'' ''Suburb A''
      (double_literal 105 1) initial_world)))) \<and>
   buffer (cout (rideDetails (Ride_of (fst (StandardRide_ctor ''S001'' ''Downtown'' ''Suburb A''
      (double_literal 105 1) initial_world))) initial_world)) =
     ''Ride ID: S001\<newline>'' @
     ''  Pickup: Downtown\<newline>'' @
     ''  Dropoff: Suburb A\<newline>'' @
     ''  Distance: 10.5 miles\<newline>'' @
     ''  Fare: $21.00\<newline>'' \<and>
   has_fraction_digits 1 ''10.5'' \<and>
   has_fraction_digits 2 ''21.00''"
  using rideDetails_precision
    [of "Ride_of (fst (StandardRide_ctor ''S001'' ''Downtown'' ''Suburb A''
           (double_literal 105 1) initial_world))" initial_world]
  by (simp add: StandardRide_ctor_eq fare_S001 finite_S001 text_10_5 text_21_00
      initial_world_def del: One_nat_def)

text \<open>
  C8 as stated fails. The largest finite double (\<^verbatim>\<open>DBL_MAX\<close>, a positive number) is a
  distance whose standard fare overflows to infinity; \<^verbatim>\<open>rideDetails\<close> then writes the
  fare as \<^verbatim>\<open>inf\<close>, a text with no fractional digit.
\<close>

theorem rideDetails_precision_counterexample:
  "is_finite (0x7FEFFFFFFFFFFFFF :: double) \<and>
   \<not> sign_bit (0x7FEFFFFFFFFFFFFF :: double) \<and>
   fare (Ride_of (fst (StandardRide_ctor ''S001'' ''Downtown'' ''Suburb A''
      0x7FEFFFFFFFFFFFFF initial_world))) = infinity False \<and>
   buffer (cout (rideDetails (Ride_of (fst (StandardRide_ctor ''S001'' ''Downtown'' ''Suburb A''
      0x7FEFFFFFFFFFFFFF initial_world))) initial_world)) =
     ''Ride ID: S001\<newline>'' @
     ''  Pickup: Downtown\<newline>'' @
     ''  Dropoff: Suburb A\<newline>'' @
     ''  Distance: '' @ format_fixed 1 0x7FEFFFFFFFFFFFFF @ '' miles\<newline>'' @
     ''  Fare: $inf\<newline>'' \<and>
   format_fixed 2 (fare (Ride_of (fst (StandardRide_ctor ''S001'' ''Downtown'' ''Suburb A''
      0x7FEFFFFFFFFFFFFF initial_world)))) = ''inf'' \<and>
   \<not> has_fraction_digits 2 (format_fixed 2 (fare (Ride_of (fst
      (StandardRide_ctor ''S001'' ''Downtown'' ''Suburb A''
         0x7FEFFFFFFFFFFFFF initial_world)))))"
proof -
  have f: "is_finite (0x7FEFFFFFFFFFFFFF :: double)" "\<not> sign_bit (0x7FEFFFFFFFFFFFFF :: double)"
    by code_simp+
  have m: "dmul 0x7FEFFFFFFFFFFFFF (double_literal 20 1) = infinity False"
    by code_simp
  have t: "format_fixed 2 (infinity False) = ''inf''"
    by code_simp
  have n: "\<not> has_fraction_digits 2 ''inf''"
    by code_simp
  show ?thesis
    by (simp add: StandardRide_ctor_eq rideDetails_buffer details_text_def initial_world_def
        f m t n del: One_nat_def)
qed

end
